theory Spec2Isabelle
  imports Complex_Main
begin

section \<open>JavaScript numbers\<close>

text \<open>
  The program computes with JavaScript numbers and relies on the special values
  \<open>Infinity\<close>, \<open>-Infinity\<close> and \<open>NaN\<close>. A number is modelled as one of these three values
  or a finite value, which is the real number the double denotes. The special values
  follow IEEE 754. Arithmetic on finite values is exact: rounding, overflow and underflow
  are abstracted away and the two zeros are identified (a zero divisor counts as \<open>+0\<close>;
  every division of the program whose divisor can be zero divides by a difference of equal
  values, a square root or a product with such a value, all of which are \<open>+0\<close>).
\<close>

datatype number = Num real | Infinity | NegInfinity | NaN

fun js_neg :: "number \<Rightarrow> number" where
  "js_neg (Num a) = Num (- a)"
| "js_neg Infinity = NegInfinity"
| "js_neg NegInfinity = Infinity"
| "js_neg NaN = NaN"

fun js_add :: "number \<Rightarrow> number \<Rightarrow> number" where
  "js_add (Num a) (Num b) = Num (a + b)"
| "js_add (Num a) Infinity = Infinity"
| "js_add (Num a) NegInfinity = NegInfinity"
| "js_add Infinity (Num b) = Infinity"
| "js_add Infinity Infinity = Infinity"
| "js_add Infinity NegInfinity = NaN"
| "js_add NegInfinity (Num b) = NegInfinity"
| "js_add NegInfinity Infinity = NaN"
| "js_add NegInfinity NegInfinity = NegInfinity"
| "js_add NaN b = NaN"
| "js_add a NaN = NaN"

definition js_sub :: "number \<Rightarrow> number \<Rightarrow> number" where
  "js_sub a b = js_add a (js_neg b)"

fun js_mul :: "number \<Rightarrow> number \<Rightarrow> number" where
  "js_mul (Num a) (Num b) = Num (a * b)"
| "js_mul (Num a) Infinity = (if a = 0 then NaN else if 0 < a then Infinity else NegInfinity)"
| "js_mul (Num a) NegInfinity = (if a = 0 then NaN else if 0 < a then NegInfinity else Infinity)"
| "js_mul Infinity (Num b) = (if b = 0 then NaN else if 0 < b then Infinity else NegInfinity)"
| "js_mul NegInfinity (Num b) = (if b = 0 then NaN else if 0 < b then NegInfinity else Infinity)"
| "js_mul Infinity Infinity = Infinity"
| "js_mul Infinity NegInfinity = NegInfinity"
| "js_mul NegInfinity Infinity = NegInfinity"
| "js_mul NegInfinity NegInfinity = Infinity"
| "js_mul NaN b = NaN"
| "js_mul a NaN = NaN"

fun js_div :: "number \<Rightarrow> number \<Rightarrow> number" where
  "js_div (Num a) (Num b) =
     (if b = 0 then (if a = 0 then NaN else if 0 < a then Infinity else NegInfinity)
      else Num (a / b))"
| "js_div (Num a) Infinity = Num 0"
| "js_div (Num a) NegInfinity = Num 0"
| "js_div Infinity (Num b) = (if 0 \<le> b then Infinity else NegInfinity)"
| "js_div NegInfinity (Num b) = (if 0 \<le> b then NegInfinity else Infinity)"
| "js_div Infinity Infinity = NaN"
| "js_div Infinity NegInfinity = NaN"
| "js_div NegInfinity Infinity = NaN"
| "js_div NegInfinity NegInfinity = NaN"
| "js_div NaN b = NaN"
| "js_div a NaN = NaN"

text \<open>\<open>Math.sqrt\<close>.\<close>

fun js_sqrt :: "number \<Rightarrow> number" where
  "js_sqrt (Num a) = (if a < 0 then NaN else Num (sqrt a))"
| "js_sqrt Infinity = Infinity"
| "js_sqrt NegInfinity = NaN"
| "js_sqrt NaN = NaN"

text \<open>The comparisons \<open><\<close>, \<open>>\<close> and \<open>==\<close>: every comparison with \<open>NaN\<close> is false.\<close>

fun js_lt :: "number \<Rightarrow> number \<Rightarrow> bool" where
  "js_lt (Num a) (Num b) = (a < b)"
| "js_lt (Num a) Infinity = True"
| "js_lt (Num a) NegInfinity = False"
| "js_lt Infinity b = False"
| "js_lt NegInfinity (Num b) = True"
| "js_lt NegInfinity Infinity = True"
| "js_lt NegInfinity NegInfinity = False"
| "js_lt NaN b = False"
| "js_lt a NaN = False"

definition js_gt :: "number \<Rightarrow> number \<Rightarrow> bool" where
  "js_gt a b = js_lt b a"

fun js_eq :: "number \<Rightarrow> number \<Rightarrow> bool" where
  "js_eq (Num a) (Num b) = (a = b)"
| "js_eq Infinity Infinity = True"
| "js_eq NegInfinity NegInfinity = True"
| "js_eq a b = False"

text \<open>\<open>Number.EPSILON\<close> is \<open>2\<^sup>-\<^sup>5\<^sup>2\<close>, the gap between 1 and the next larger double.\<close>

definition Number_EPSILON :: number where
  "Number_EPSILON = Num (1 / 2 ^ 52)"


fun is_finite :: "number \<Rightarrow> bool" where
  "is_finite (Num a) = True"
| "is_finite a = False"

section \<open>Arrays\<close>

text \<open>
  \<open>Array.prototype.sort\<close> with a comparison function: \<open>a\<close> goes after \<open>b\<close> when the
  comparison of \<open>a\<close> with \<open>b\<close> is positive, and the sort is stable (a result that is zero or
  \<open>NaN\<close> keeps the order of the array). The model is the stable insertion sort; for a
  consistent comparison function every conforming sort returns the same array.
\<close>

fun insert_sorted :: "('a \<Rightarrow> 'a \<Rightarrow> number) \<Rightarrow> 'a \<Rightarrow> 'a list \<Rightarrow> 'a list" where
  "insert_sorted cmp e [] = [e]"
| "insert_sorted cmp e (h # t) =
     (if js_gt (cmp e h) (Num 0) then h # insert_sorted cmp e t else e # h # t)"

definition array_sort :: "('a \<Rightarrow> 'a \<Rightarrow> number) \<Rightarrow> 'a list \<Rightarrow> 'a list" where
  "array_sort cmp xs = foldr (insert_sorted cmp) xs []"

text \<open>\<open>Array.prototype.pop\<close>: the last element (\<open>undefined\<close> on the empty array) and the rest.\<close>

definition array_pop :: "'a list \<Rightarrow> 'a option \<times> 'a list" where
  "array_pop xs = (if xs = [] then (None, []) else (Some (last xs), butlast xs))"

section \<open>Geometry primitives\<close>

text \<open>
  A \<open>Coordinate\<close> has the fields \<open>x\<close> and \<open>y\<close> (here \<open>px\<close> and \<open>py\<close>). The sites are
  compared by object identity, so a site is a coordinate object together with its
  identity \<open>ident\<close>; the coordinates of vertices are never compared and are plain values.
\<close>

record Coordinate =
  px :: number
  py :: number

record Site =
  ident :: nat
  coords :: Coordinate

definition same_object :: "Site \<Rightarrow> Site \<Rightarrow> bool" where
  "same_object a b = (ident a = ident b)"

record CircleResult =
  centre :: Coordinate
  radius :: number

definition parabolaPointY :: "Coordinate \<Rightarrow> number \<Rightarrow> number \<Rightarrow> number" where
  "parabolaPointY focus directrix xPos =
     (let directrix = js_sub directrix (py focus);
          xPos = js_sub xPos (px focus)
      in js_add (js_div (js_sub (js_mul directrix directrix) (js_mul xPos xPos))
                        (js_mul (Num 2) directrix))
                (py focus))"

definition circle_compare :: "Coordinate \<Rightarrow> Coordinate \<Rightarrow> number" where
  "circle_compare a b =
     (if js_eq (py a) (py b) then js_sub (px a) (px b) else js_sub (py a) (py b))"

definition circle :: "Coordinate \<Rightarrow> Coordinate \<Rightarrow> Coordinate \<Rightarrow> CircleResult" where
  "circle a b c =
     (let sortedList = array_sort circle_compare [a, b, c];
          a = sortedList ! 0;
          b = sortedList ! 1;
          c = sortedList ! 2;
          mabx = js_div (js_add (px a) (px b)) (Num 2);
          maby = js_div (js_add (py a) (py b)) (Num 2);
          mbcx = js_div (js_add (px b) (px c)) (Num 2);
          mbcy = js_div (js_add (py b) (py c)) (Num 2);
          igab = (if js_eq (js_sub (py b) (py a)) (Num 0) then Infinity
                  else js_div (js_sub (px a) (px b)) (js_sub (py b) (py a)));
          igbc = (if js_eq (js_sub (py c) (py b)) (Num 0) then Infinity
                  else js_div (js_sub (px b) (px c)) (js_sub (py c) (py b)));
          xVal = (if js_eq igab Infinity then mabx
                  else if js_eq igbc Infinity then mbcx
                  else js_div (js_sub (js_add (js_sub (js_mul mabx igab) (js_mul mbcx igbc)) mbcy)
                                      maby)
                              (js_sub igab igbc));
          yVal = (if js_eq igab Infinity then js_add (js_mul (js_sub xVal mbcx) igbc) mbcy
                  else js_add (js_mul (js_sub xVal mabx) igab) maby);
          radius = js_sqrt (js_add (js_mul (js_sub (px a) xVal) (js_sub (px a) xVal))
                                   (js_mul (js_sub (py a) yVal) (js_sub (py a) yVal)))
      in \<lparr>centre = \<lparr>px = xVal, py = yVal\<rparr>, radius = radius\<rparr>)"

definition getNormal :: "Coordinate \<Rightarrow> Coordinate" where
  "getNormal vector =
     (let divisor = js_sqrt (js_add (js_mul (px vector) (px vector)) (js_mul (py vector) (py vector)));
          unitVector = \<lparr>px = js_div (px vector) divisor, py = js_div (py vector) divisor\<rparr>
      in \<lparr>px = py unitVector, py = js_neg (px unitVector)\<rparr>)"

definition distanceFromPlane :: "Coordinate \<Rightarrow> Coordinate \<Rightarrow> Coordinate \<Rightarrow> number" where
  "distanceFromPlane a b point =
     (let normal = getNormal \<lparr>px = js_sub (px b) (px a), py = js_sub (py b) (py a)\<rparr>;
          transformedPoint = \<lparr>px = js_sub (px point) (px a), py = js_sub (py point) (py a)\<rparr>
      in js_add (js_mul (px normal) (px transformedPoint)) (js_mul (py normal) (py transformedPoint)))"

definition bisectorY :: "Coordinate \<Rightarrow> Coordinate \<Rightarrow> number \<Rightarrow> number" where
  "bisectorY a b xVal =
     (let midX = js_div (js_add (px a) (px b)) (Num 2);
          midY = js_div (js_add (py a) (py b)) (Num 2);
          inverseGrad = (if js_eq (js_sub (py b) (py a)) (Num 0) then Number_EPSILON
                         else js_div (js_sub (px a) (px b)) (js_sub (py b) (py a)))
      in js_add (js_mul (js_sub xVal midX) inverseGrad) midY)"

section \<open>Event queue\<close>

record SiteEvent =
  point :: Site

text \<open>
  The arcs of the beachline are mutable, cyclically linked objects: an arc is referred to
  by its address in the arc store of the diagram (\<open>arcHeap\<close> below), and \<open>null\<close> is
  \<open>None\<close>. The \<open>arcs\<close> of a vertex event are the addresses of its three arcs.
\<close>

record VertexEvent =
  arcs :: "nat list"
  eventPoint :: Coordinate
  vertexPoint :: Coordinate

record EventResult =
  isSiteEvent :: bool
  siteEvent :: "SiteEvent option"
  vertexEvent :: "VertexEvent option"

record PriorityQueue =
  siteEvents :: "SiteEvent list"
  vertexEvents :: "VertexEvent list"

definition new_PriorityQueue :: PriorityQueue where
  "new_PriorityQueue = \<lparr>siteEvents = [], vertexEvents = []\<rparr>"

definition sortSites_compare :: "SiteEvent \<Rightarrow> SiteEvent \<Rightarrow> number" where
  "sortSites_compare a b =
     (if js_eq (py (coords (point a))) (py (coords (point b)))
      then js_sub (px (coords (point b))) (px (coords (point a)))
      else if js_gt (py (coords (point a))) (py (coords (point b))) then Num (- 1)
      else Num 1)"

definition sortSites :: "PriorityQueue \<Rightarrow> PriorityQueue" where
  "sortSites q = q\<lparr>siteEvents := array_sort sortSites_compare (siteEvents q)\<rparr>"

definition sortVertices_compare :: "VertexEvent \<Rightarrow> VertexEvent \<Rightarrow> number" where
  "sortVertices_compare a b =
     (if js_eq (py (eventPoint a)) (py (eventPoint b))
      then js_sub (px (eventPoint b)) (px (eventPoint a))
      else js_sub (py (eventPoint b)) (py (eventPoint a)))"

definition sortVertices :: "PriorityQueue \<Rightarrow> PriorityQueue" where
  "sortVertices q = q\<lparr>vertexEvents := array_sort sortVertices_compare (vertexEvents q)\<rparr>"

definition pushSiteEvents :: "PriorityQueue \<Rightarrow> Site list \<Rightarrow> PriorityQueue" where
  "pushSiteEvents q values =
     sortSites (q\<lparr>siteEvents := map (\<lambda>element. \<lparr>point = element\<rparr>) values\<rparr>)"

definition pushVertexEvents :: "PriorityQueue \<Rightarrow> VertexEvent list \<Rightarrow> PriorityQueue" where
  "pushVertexEvents q values = sortVertices (q\<lparr>vertexEvents := vertexEvents q @ values\<rparr>)"

text \<open>
  \<open>removeVertexEvents\<close> removes by identity the events of \<open>values\<close>. Its only caller passes
  the events of the queue that mention a given arc, which a comparison by value selects
  as well.
\<close>

definition removeVertexEvents :: "PriorityQueue \<Rightarrow> VertexEvent list \<Rightarrow> PriorityQueue" where
  "removeVertexEvents q values =
     sortVertices (q\<lparr>vertexEvents := filter (\<lambda>element. element \<notin> set values) (vertexEvents q)\<rparr>)"

definition isEmpty :: "PriorityQueue \<Rightarrow> bool" where
  "isEmpty q = (length (siteEvents q) = 0 \<and> length (vertexEvents q) = 0)"

definition pop :: "PriorityQueue \<Rightarrow> EventResult \<times> PriorityQueue" where
  "pop q =
     (if length (vertexEvents q) = 0
      then (\<lparr>isSiteEvent = True, siteEvent = fst (array_pop (siteEvents q)), vertexEvent = None\<rparr>,
            q\<lparr>siteEvents := snd (array_pop (siteEvents q))\<rparr>)
      else if length (siteEvents q) = 0
      then (\<lparr>isSiteEvent = False, siteEvent = None, vertexEvent = fst (array_pop (vertexEvents q))\<rparr>,
            q\<lparr>vertexEvents := snd (array_pop (vertexEvents q))\<rparr>)
      else
        let nextSiteEvent = last (siteEvents q);
            nextVertexEvent = last (vertexEvents q)
        in if js_lt (py (coords (point nextSiteEvent))) (py (eventPoint nextVertexEvent))
           then (\<lparr>isSiteEvent = True, siteEvent = Some nextSiteEvent, vertexEvent = None\<rparr>,
                 q\<lparr>siteEvents := butlast (siteEvents q)\<rparr>)
           else (\<lparr>isSiteEvent = False, siteEvent = None, vertexEvent = Some nextVertexEvent\<rparr>,
                 q\<lparr>vertexEvents := butlast (vertexEvents q)\<rparr>))"

section \<open>Diagram state\<close>

text \<open>
  An active site is referred to by its index in \<open>activeSites\<close> (the list only grows), an
  arc by its address in \<open>arcHeap\<close> (an object literal of the source allocates the next
  address), an edge by its index in \<open>edges\<close>.
\<close>

record ActiveSite =
  site :: Site
  arcs :: "nat list"

record ParabolaArc =
  activeSite :: nat
  rightArc :: "nat option"
  leftArc :: "nat option"

record Edge =
  leftFace :: Site
  rightFace :: Site
  firstVertex :: "Coordinate option"
  lastVertex :: "Coordinate option"

record VoronoiDiagram =
  activeSites :: "ActiveSite list"
  edges :: "Edge list"
  lineSweepPosition :: number
  queue :: PriorityQueue
  arcHeap :: "ParabolaArc list"

text \<open>Reading a property of \<open>null\<close> or \<open>undefined\<close> throws a \<open>TypeError\<close>.\<close>

datatype error = TypeError

definition arcSite :: "VoronoiDiagram \<Rightarrow> nat \<Rightarrow> Site" where
  "arcSite d arc = site (activeSites d ! activeSite (arcHeap d ! arc))"

definition set_arcs :: "ActiveSite list \<Rightarrow> nat \<Rightarrow> nat list \<Rightarrow> ActiveSite list" where
  "set_arcs ss i v = ss[i := (ss ! i)\<lparr>arcs := v\<rparr>]"

definition set_leftArc :: "ParabolaArc list \<Rightarrow> nat \<Rightarrow> nat option \<Rightarrow> ParabolaArc list" where
  "set_leftArc h a v = h[a := (h ! a)\<lparr>leftArc := v\<rparr>]"

definition set_rightArc :: "ParabolaArc list \<Rightarrow> nat \<Rightarrow> nat option \<Rightarrow> ParabolaArc list" where
  "set_rightArc h a v = h[a := (h ! a)\<lparr>rightArc := v\<rparr>]"

text \<open>The statements \<open>if (a != null) { a.leftArc = v }\<close> and \<open>if (a != null) { a.rightArc = v }\<close>.\<close>

definition set_leftArc_unless_null :: "ParabolaArc list \<Rightarrow> nat option \<Rightarrow> nat option \<Rightarrow> ParabolaArc list" where
  "set_leftArc_unless_null h a v = (case a of None \<Rightarrow> h | Some r \<Rightarrow> set_leftArc h r v)"

definition set_rightArc_unless_null :: "ParabolaArc list \<Rightarrow> nat option \<Rightarrow> nat option \<Rightarrow> ParabolaArc list" where
  "set_rightArc_unless_null h a v = (case a of None \<Rightarrow> h | Some l \<Rightarrow> set_rightArc h l v)"

text \<open>The last element of an array, \<open>undefined\<close> when it is empty.\<close>

definition array_last :: "'a list \<Rightarrow> 'a option" where
  "array_last xs = (if xs = [] then None else Some (last xs))"

section \<open>Edges\<close>

definition addVertexToEdge :: "Edge \<Rightarrow> Coordinate \<Rightarrow> Edge" where
  "addVertexToEdge edge vertex =
     (if js_gt (distanceFromPlane (coords (leftFace edge)) (coords (rightFace edge)) vertex) (Num 0)
      then edge\<lparr>firstVertex := Some vertex\<rparr>
      else edge\<lparr>lastVertex := Some vertex\<rparr>)"

text \<open>The writes at which \<open>addVertexToEdge\<close> logs \<open>vertex addition error\<close>.\<close>

definition vertex_addition_error :: "Edge \<Rightarrow> Coordinate \<Rightarrow> bool" where
  "vertex_addition_error edge vertex =
     (if js_gt (distanceFromPlane (coords (leftFace edge)) (coords (rightFace edge)) vertex) (Num 0)
      then firstVertex edge \<noteq> None
      else lastVertex edge \<noteq> None)"

definition edge_matches :: "Site \<Rightarrow> Site \<Rightarrow> Edge \<Rightarrow> bool" where
  "edge_matches a b element =
     ((same_object (leftFace element) a \<and> same_object (rightFace element) b) \<or>
      (same_object (leftFace element) b \<and> same_object (rightFace element) a))"

text \<open>\<open>Array.prototype.find\<close>, returning the index of the element found.\<close>

fun array_find :: "('a \<Rightarrow> bool) \<Rightarrow> 'a list \<Rightarrow> nat option" where
  "array_find P [] = None"
| "array_find P (h # t) = (if P h then Some 0 else map_option Suc (array_find P t))"

definition getEdge :: "Edge list \<Rightarrow> Site \<Rightarrow> Site \<Rightarrow> nat option" where
  "getEdge es a b = array_find (edge_matches a b) es"

definition updateEdge :: "Edge list \<Rightarrow> Site \<Rightarrow> Site \<Rightarrow> Coordinate \<Rightarrow> error + Edge list" where
  "updateEdge es leftSite rightSite vertex =
     (case getEdge es leftSite rightSite of
        None \<Rightarrow> Inl TypeError
      | Some i \<Rightarrow> Inr (es[i := addVertexToEdge (es ! i) vertex]))"

definition completeEdge :: "Edge \<Rightarrow> Edge" where
  "completeEdge edge =
     (if firstVertex edge = None \<and> lastVertex edge = None then edge
      else
        let midpointX = js_div (js_add (px (coords (leftFace edge))) (px (coords (rightFace edge)))) (Num 2)
        in if firstVertex edge = None
           then (let direction = js_sub midpointX (px (the (lastVertex edge)))
                 in if js_gt direction (Num 0)
                    then edge\<lparr>firstVertex := Some \<lparr>px = Num 100,
                           py = bisectorY (coords (leftFace edge)) (coords (rightFace edge)) (Num 100)\<rparr>\<rparr>
                    else edge\<lparr>firstVertex := Some \<lparr>px = Num (- 100),
                           py = bisectorY (coords (leftFace edge)) (coords (rightFace edge)) (Num (- 100))\<rparr>\<rparr>)
           else if lastVertex edge = None
           then (let direction = js_sub midpointX (px (the (firstVertex edge)))
                 in if js_gt direction (Num 0)
                    then edge\<lparr>lastVertex := Some \<lparr>px = Num 100,
                           py = bisectorY (coords (leftFace edge)) (coords (rightFace edge)) (Num 100)\<rparr>\<rparr>
                    else edge\<lparr>lastVertex := Some \<lparr>px = Num (- 100),
                           py = bisectorY (coords (leftFace edge)) (coords (rightFace edge)) (Num (- 100))\<rparr>\<rparr>)
           else edge)"

definition completeUnboundEdges :: "VoronoiDiagram \<Rightarrow> VoronoiDiagram" where
  "completeUnboundEdges d = d\<lparr>edges := map completeEdge (edges d)\<rparr>"

section \<open>Vertex events\<close>

definition removeArcTriples :: "VoronoiDiagram \<Rightarrow> nat \<Rightarrow> VoronoiDiagram" where
  "removeArcTriples d arc =
     (let deadEvents = filter (\<lambda>element. VertexEvent.arcs element ! 0 = arc \<or>
                                          VertexEvent.arcs element ! 1 = arc \<or>
                                          VertexEvent.arcs element ! 2 = arc)
                              (vertexEvents (queue d))
      in d\<lparr>queue := removeVertexEvents (queue d) deadEvents\<rparr>)"

definition getVertexEvent :: "VoronoiDiagram \<Rightarrow> nat \<Rightarrow> error + VertexEvent option" where
  "getVertexEvent d arc =
     (case (leftArc (arcHeap d ! arc), rightArc (arcHeap d ! arc)) of
        (Some la, Some ra) \<Rightarrow>
          let leftSite = arcSite d la;
              middleSite = arcSite d arc;
              rightSite = arcSite d ra
          in if same_object leftSite middleSite \<or> same_object middleSite rightSite \<or>
                same_object leftSite rightSite
             then Inr None
             else if js_gt (px (coords leftSite)) (px (coords rightSite)) then Inr None
             else
               let circleResult = circle (coords leftSite) (coords middleSite) (coords rightSite)
               in if js_eq (px (centre circleResult)) Infinity \<or> js_eq (py (centre circleResult)) Infinity
                  then Inr None
                  else
                    let eventY = js_add (py (centre circleResult)) (radius circleResult)
                    in if js_lt eventY (lineSweepPosition d) then Inr None
                       else Inr (Some \<lparr>VertexEvent.arcs = [la, arc, ra],
                                       eventPoint = \<lparr>px = px (centre circleResult), py = eventY\<rparr>,
                                       vertexPoint = centre circleResult\<rparr>)
      | _ \<Rightarrow> Inl TypeError)"

text \<open>
  The two blocks of \<open>updateVertexEventsForNewSite\<close>, towards the left (\<open>next\<close> is
  \<open>leftArc\<close>) and towards the right (\<open>next\<close> is \<open>rightArc\<close>) of the new arc: the vertex
  events of the neighbour \<open>a\<close> and of the arc after it, when they have an arc on their far
  side.
\<close>

definition neighbourEvents ::
  "(ParabolaArc \<Rightarrow> nat option) \<Rightarrow> VoronoiDiagram \<Rightarrow> nat \<Rightarrow> error + VertexEvent option list" where
  "neighbourEvents next d a =
     (case next (arcHeap d ! a) of
        None \<Rightarrow> Inr []
      | Some aa \<Rightarrow>
          (case getVertexEvent d a of
             Inl e \<Rightarrow> Inl e
           | Inr e1 \<Rightarrow>
               (case next (arcHeap d ! aa) of
                  None \<Rightarrow> Inr [e1]
                | Some aaa \<Rightarrow>
                    (case getVertexEvent d aa of
                       Inl e \<Rightarrow> Inl e
                     | Inr e2 \<Rightarrow> Inr [e1, e2]))))"

definition updateVertexEventsForNewSite :: "VoronoiDiagram \<Rightarrow> nat \<Rightarrow> error + VoronoiDiagram" where
  "updateVertexEventsForNewSite d arc =
     (case leftArc (arcHeap d ! arc) of
        None \<Rightarrow> Inl TypeError
      | Some la \<Rightarrow>
          (case neighbourEvents leftArc d la of
             Inl e \<Rightarrow> Inl e
           | Inr leftEvents \<Rightarrow>
               (case rightArc (arcHeap d ! arc) of
                  None \<Rightarrow> Inl TypeError
                | Some ra \<Rightarrow>
                    (case neighbourEvents rightArc d ra of
                       Inl e \<Rightarrow> Inl e
                     | Inr rightEvents \<Rightarrow>
                         Inr (d\<lparr>queue := pushVertexEvents (queue d)
                                (map the (filter (\<lambda>element. element \<noteq> None)
                                   (leftEvents @ rightEvents)))\<rparr>)))))"

definition processVertexEvent :: "VoronoiDiagram \<Rightarrow> VertexEvent \<Rightarrow> error + VoronoiDiagram" where
  "processVertexEvent d event =
     (let deletedArc = VertexEvent.arcs event ! 1;
          owner = activeSite (arcHeap d ! deletedArc);
          ss = set_arcs (activeSites d) owner
                 (filter (\<lambda>arc. arc \<noteq> deletedArc) (ActiveSite.arcs (activeSites d ! owner)));
          leftSite = VertexEvent.arcs event ! 0;
          rightSite = VertexEvent.arcs event ! 2;
          h = set_rightArc (arcHeap d) leftSite (Some (VertexEvent.arcs event ! 2));
          h = set_leftArc h rightSite (Some (VertexEvent.arcs event ! 0));
          d = removeArcTriples (d\<lparr>activeSites := ss, arcHeap := h\<rparr>) deletedArc;
          edge = \<lparr>leftFace = arcSite d leftSite, rightFace = arcSite d rightSite,
                  firstVertex = None, lastVertex = None\<rparr>;
          edge = addVertexToEdge edge (vertexPoint event);
          es = edges d @ [edge]
      in case updateEdge es (arcSite d leftSite) (arcSite d deletedArc) (vertexPoint event) of
           Inl e \<Rightarrow> Inl e
         | Inr es \<Rightarrow>
             (case updateEdge es (arcSite d deletedArc) (arcSite d rightSite) (vertexPoint event) of
                Inl e \<Rightarrow> Inl e
              | Inr es \<Rightarrow> Inr (d\<lparr>edges := es\<rparr>)))"

section \<open>Site events\<close>

text \<open>
  \<open>updateBeachLine\<close> first replaces the intersected arc by two copies of it around the
  new arc and records the edge between the two sites (\<open>updateBeachLine_links\<close>), then
  updates the vertex events.
\<close>

definition updateBeachLine_links :: "VoronoiDiagram \<Rightarrow> nat \<Rightarrow> nat \<Rightarrow> VoronoiDiagram" where
  "updateBeachLine_links d newArc intersectedArc =
     (let owner = activeSite (arcHeap d ! intersectedArc);
          ss = set_arcs (activeSites d) owner
                 (filter (\<lambda>element. element \<noteq> intersectedArc) (ActiveSite.arcs (activeSites d ! owner)));
          intersectedArcLeftArc = leftArc (arcHeap d ! intersectedArc);
          intersectedArcRightArc = rightArc (arcHeap d ! intersectedArc);
          newLeft = length (arcHeap d);
          h = set_leftArc
                (arcHeap d @ [\<lparr>activeSite = owner, rightArc = Some newArc, leftArc = intersectedArcLeftArc\<rparr>])
                newArc (Some newLeft);
          newRight = length h;
          h = set_rightArc
                (h @ [\<lparr>activeSite = owner, rightArc = intersectedArcRightArc, leftArc = Some newArc\<rparr>])
                newArc (Some newRight);
          ss = set_arcs ss owner (ActiveSite.arcs (ss ! owner) @ [newLeft]);
          ss = set_arcs ss owner (ActiveSite.arcs (ss ! owner) @ [newRight]);
          h = set_rightArc_unless_null h intersectedArcLeftArc (Some newLeft);
          h = set_leftArc_unless_null h intersectedArcRightArc (Some newRight);
          d = d\<lparr>activeSites := ss, arcHeap := h\<rparr>
      in d\<lparr>edges := edges d @ [\<lparr>leftFace = arcSite d newArc, rightFace = arcSite d intersectedArc,
                                    firstVertex = None, lastVertex = None\<rparr>]\<rparr>)"

definition updateBeachLine :: "VoronoiDiagram \<Rightarrow> nat \<Rightarrow> nat \<Rightarrow> error + VoronoiDiagram" where
  "updateBeachLine d newArc intersectedArc =
     updateVertexEventsForNewSite
       (removeArcTriples (updateBeachLine_links d newArc intersectedArc) intersectedArc) newArc"

text \<open>The scan of \<open>insertSite\<close> for the parabola closest to the sweep line at the new site.\<close>

definition closest_step :: "VoronoiDiagram \<Rightarrow> Site \<Rightarrow> number \<times> nat option \<Rightarrow> nat \<Rightarrow> number \<times> nat option" where
  "closest_step d s acc element =
     (let yDist = parabolaPointY (coords (site (activeSites d ! element))) (lineSweepPosition d) (px (coords s))
      in if \<not> js_eq yDist Infinity \<and> js_gt yDist (fst acc) then (yDist, Some element) else acc)"

text \<open>
  The scan of \<open>insertSite\<close> over all arcs of the closest parabola but the last: the
  \<open>return\<close> leaves the callback only, so the last arc that passes the test is kept.
\<close>

definition containing_step :: "VoronoiDiagram \<Rightarrow> Site \<Rightarrow> error + nat option \<Rightarrow> nat \<Rightarrow> error + nat option" where
  "containing_step d s acc arc =
     (case acc of
        Inl e \<Rightarrow> Inl e
      | Inr containingArc \<Rightarrow>
          (case rightArc (arcHeap d ! arc) of
             None \<Rightarrow> Inl TypeError
           | Some r \<Rightarrow> if js_gt (px (coords (arcSite d r))) (px (coords s)) then Inr (Some arc)
                       else Inr containingArc))"

definition arcs_compare :: "VoronoiDiagram \<Rightarrow> nat \<Rightarrow> nat \<Rightarrow> number" where
  "arcs_compare d a b =
     (case rightArc (arcHeap d ! a) of
        None \<Rightarrow> Num 1
      | Some ra \<Rightarrow>
          (case rightArc (arcHeap d ! b) of
             None \<Rightarrow> Num (- 1)
           | Some rb \<Rightarrow> js_sub (px (coords (arcSite d ra))) (px (coords (arcSite d rb)))))"

definition insertSite :: "VoronoiDiagram \<Rightarrow> Site \<Rightarrow> error + VoronoiDiagram" where
  "insertSite d s =
     (case snd (foldl (closest_step d s) (NegInfinity, None) [0..<length (activeSites d)]) of
        None \<Rightarrow> Inl TypeError
      | Some closestParabolaSite \<Rightarrow>
          (case (if length (ActiveSite.arcs (activeSites d ! closestParabolaSite)) = 1
                 then Inr (Some (ActiveSite.arcs (activeSites d ! closestParabolaSite) ! 0))
                 else (case foldl (containing_step d s) (Inr None)
                              (butlast (ActiveSite.arcs (activeSites d ! closestParabolaSite))) of
                         Inl e \<Rightarrow> Inl e
                       | Inr None \<Rightarrow> Inr (array_last (ActiveSite.arcs (activeSites d ! closestParabolaSite)))
                       | Inr (Some containingArc) \<Rightarrow> Inr (Some containingArc))) of
             Inl e \<Rightarrow> Inl e
           | Inr None \<Rightarrow> Inl TypeError
           | Inr (Some containingArc) \<Rightarrow>
               (let newArc = length (arcHeap d);
                    d = d\<lparr>activeSites := activeSites d @ [\<lparr>site = s, arcs = [newArc]\<rparr>],
                          arcHeap := arcHeap d @
                            [\<lparr>activeSite = length (activeSites d), rightArc = None, leftArc = None\<rparr>]\<rparr>
                in case updateBeachLine d newArc containingArc of
                     Inl e \<Rightarrow> Inl e
                   | Inr d \<Rightarrow>
                       Inr (d\<lparr>activeSites := set_arcs (activeSites d) closestParabolaSite
                              (array_sort (arcs_compare d)
                                 (ActiveSite.arcs (activeSites d ! closestParabolaSite)))\<rparr>))))"

section \<open>Top level\<close>

definition insertFirstSites :: "VoronoiDiagram \<Rightarrow> error + VoronoiDiagram" where
  "insertFirstSites d =
     (case siteEvent (fst (pop (queue d))) of
        None \<Rightarrow> Inl TypeError
      | Some first \<Rightarrow>
          (case siteEvent (fst (pop (snd (pop (queue d))))) of
             None \<Rightarrow> Inl TypeError
           | Some second \<Rightarrow>
               (let firstSite = point first;
                    secondSite = point second;
                    firstActiveSite = length (activeSites d);
                    secondActiveSite = length (activeSites d) + 1;
                    dividingArc = length (arcHeap d);
                    leftArc' = length (arcHeap d) + 1;
                    rightArc' = length (arcHeap d) + 2
                in Inr (d\<lparr>queue := snd (pop (snd (pop (queue d)))),
                          activeSites := activeSites d @
                            [\<lparr>site = firstSite, arcs = [leftArc', rightArc']\<rparr>,
                             \<lparr>site = secondSite, arcs = [dividingArc]\<rparr>],
                          arcHeap := arcHeap d @
                            [\<lparr>activeSite = secondActiveSite, rightArc = Some rightArc', leftArc = Some leftArc'\<rparr>,
                             \<lparr>activeSite = firstActiveSite, rightArc = Some dividingArc, leftArc = None\<rparr>,
                             \<lparr>activeSite = firstActiveSite, rightArc = None, leftArc = Some dividingArc\<rparr>],
                          edges := edges d @
                            [\<lparr>leftFace = firstSite, rightFace = secondSite,
                              firstVertex = None, lastVertex = None\<rparr>]\<rparr>))))"

definition new_VoronoiDiagram :: "Site list \<Rightarrow> error + VoronoiDiagram" where
  "new_VoronoiDiagram sites =
     insertFirstSites \<lparr>activeSites = [], edges = [], lineSweepPosition = Num 0,
                       queue = pushSiteEvents new_PriorityQueue sites, arcHeap = []\<rparr>"

definition computeStep :: "VoronoiDiagram \<Rightarrow> error + VoronoiDiagram" where
  "computeStep d =
     (let nextEvent = fst (pop (queue d));
          d = d\<lparr>queue := snd (pop (queue d))\<rparr>
      in if isSiteEvent nextEvent
         then (case siteEvent nextEvent of
                 None \<Rightarrow> Inl TypeError
               | Some e \<Rightarrow> insertSite (d\<lparr>lineSweepPosition := py (coords (point e))\<rparr>) (point e))
         else (case vertexEvent nextEvent of
                 None \<Rightarrow> Inl TypeError
               | Some e \<Rightarrow> processVertexEvent (d\<lparr>lineSweepPosition := py (eventPoint e)\<rparr>) e))"

section \<open>The main loop\<close>

text \<open>
  \<open>compute\<close> runs \<open>computeStep\<close> until the queue is empty. A site event removes one site
  event and adds at most four vertex events, a vertex event removes at least one vertex
  event, so the loop ends after at most \<open>steps_left\<close> steps.
\<close>

lemma length_insert_sorted: "length (insert_sorted cmp e xs) = Suc (length xs)"
  by (induction xs) auto

lemma length_array_sort: "length (array_sort cmp xs) = length xs"
  by (induction xs) (auto simp: array_sort_def length_insert_sorted)

lemma set_insert_sorted: "set (insert_sorted cmp e xs) = insert e (set xs)"
  by (induction xs) auto

lemma set_array_sort: "set (array_sort cmp xs) = set xs"
  by (induction xs) (auto simp: array_sort_def set_insert_sorted)

definition steps_left :: "VoronoiDiagram \<Rightarrow> nat" where
  "steps_left d = 5 * length (siteEvents (queue d)) + length (vertexEvents (queue d))"

lemma removeArcTriples_queue:
  "siteEvents (queue (removeArcTriples d arc)) = siteEvents (queue d) \<and>
   length (vertexEvents (queue (removeArcTriples d arc))) \<le> length (vertexEvents (queue d))"
  by (simp add: removeArcTriples_def removeVertexEvents_def sortVertices_def length_array_sort Let_def)

lemma neighbourEvents_length:
  "neighbourEvents next d a = Inr es \<Longrightarrow> length es \<le> 2"
  by (auto simp: neighbourEvents_def split: option.splits sum.splits)

lemma updateVertexEventsForNewSite_queue:
  assumes "updateVertexEventsForNewSite d arc = Inr d'"
  shows "siteEvents (queue d') = siteEvents (queue d) \<and>
         length (vertexEvents (queue d')) \<le> length (vertexEvents (queue d)) + 4"
  using assms
proof -
  obtain ls rs where ls: "length ls \<le> 2" and rs: "length rs \<le> 2"
    and d': "d' = d\<lparr>queue := pushVertexEvents (queue d)
                   (map the (filter (\<lambda>element. element \<noteq> None) (ls @ rs)))\<rparr>"
    using assms
    by (auto simp: updateVertexEventsForNewSite_def split: option.splits sum.splits
             dest: neighbourEvents_length)
  have "length (filter (\<lambda>element. element \<noteq> None) ls) \<le> 2"
       "length (filter (\<lambda>element. element \<noteq> None) rs) \<le> 2"
    using ls rs le_trans[OF length_filter_le] by blast+
  then show ?thesis
    by (simp add: d' pushVertexEvents_def sortVertices_def length_array_sort)
qed

lemma updateBeachLine_links_queue:
  "queue (updateBeachLine_links d newArc intersectedArc) = queue d"
  by (simp add: updateBeachLine_links_def Let_def)

lemma updateBeachLine_queue:
  assumes "updateBeachLine d newArc intersectedArc = Inr d'"
  shows "siteEvents (queue d') = siteEvents (queue d) \<and>
         length (vertexEvents (queue d')) \<le> length (vertexEvents (queue d)) + 4"
  using updateVertexEventsForNewSite_queue[OF assms[unfolded updateBeachLine_def]]
        removeArcTriples_queue[of "updateBeachLine_links d newArc intersectedArc" intersectedArc]
  by (simp add: updateBeachLine_links_queue)

lemma insertSite_queue:
  assumes "insertSite d s = Inr d'"
  shows "siteEvents (queue d') = siteEvents (queue d) \<and>
         length (vertexEvents (queue d')) \<le> length (vertexEvents (queue d)) + 4"
  using assms
  by (auto simp: insertSite_def Let_def split: option.splits sum.splits if_splits dest!: updateBeachLine_queue)

lemma processVertexEvent_queue:
  assumes "processVertexEvent d e = Inr d'"
  shows "siteEvents (queue d') = siteEvents (queue d) \<and>
         length (vertexEvents (queue d')) \<le> length (vertexEvents (queue d))"
proof -
  obtain d0 es where d': "d' = (removeArcTriples d0 (VertexEvent.arcs e ! 1))\<lparr>edges := es\<rparr>"
    and q: "queue d0 = queue d"
    using assms unfolding processVertexEvent_def Let_def
    by (fastforce split: sum.splits)
  from removeArcTriples_queue[of d0 "VertexEvent.arcs e ! 1"] q d'
  show ?thesis by simp
qed

lemma computeStep_steps_left:
  assumes "\<not> isEmpty (queue d)" and "computeStep d = Inr d'"
  shows "steps_left d' < steps_left d"
proof -
  define n where "n = length (siteEvents (queue d))"
  define m where "m = length (vertexEvents (queue d))"
  have n: "length (siteEvents (queue d)) = n" "(siteEvents (queue d) = []) = (n = 0)"
    by (simp_all add: n_def)
  have m: "length (vertexEvents (queue d)) = m" "(vertexEvents (queue d) = []) = (m = 0)"
    by (simp_all add: m_def)
  show ?thesis
    using assms
    by (auto simp: computeStep_def Let_def pop_def array_pop_def isEmpty_def steps_left_def n m
           split: option.splits sum.splits if_splits dest!: insertSite_queue processVertexEvent_queue)
qed

function compute_loop :: "VoronoiDiagram \<Rightarrow> error + VoronoiDiagram" where
  "compute_loop d =
     (if isEmpty (queue d) then Inr d
      else (case computeStep d of Inl e \<Rightarrow> Inl e | Inr d' \<Rightarrow> compute_loop d'))"
  by pat_completeness auto
termination
  by (relation "measure steps_left") (auto simp: computeStep_steps_left)

declare compute_loop.simps [simp del]

lemma compute_loop_empty: "isEmpty (queue d) \<Longrightarrow> compute_loop d = Inr d"
  by (subst compute_loop.simps) simp

definition compute ::  "VoronoiDiagram \<Rightarrow> error + VoronoiDiagram" where
  "compute d = (case compute_loop d of Inl e \<Rightarrow> Inl e | Inr d' \<Rightarrow> Inr (completeUnboundEdges d'))"

text \<open>The first \<open>n\<close> iterations of the loop of \<open>compute\<close>.\<close>

fun computeSteps :: "nat \<Rightarrow> VoronoiDiagram \<Rightarrow> error + VoronoiDiagram" where
  "computeSteps 0 d = Inr d"
| "computeSteps (Suc n) d =
     (case computeStep d of Inl e \<Rightarrow> Inl e | Inr d' \<Rightarrow> computeSteps n d')"

text \<open>\<open>new VoronoiDiagram(sites)\<close> followed by \<open>compute()\<close>: the edges of the diagram.\<close>

definition diagram_edges :: "Site list \<Rightarrow> error + Edge list" where
  "diagram_edges sites =
     (case new_VoronoiDiagram sites of
        Inl e \<Rightarrow> Inl e
      | Inr d \<Rightarrow> (case compute d of Inl e \<Rightarrow> Inl e | Inr d' \<Rightarrow> Inr (edges d')))"

section \<open>Concrete inputs\<close>

definition coordinate :: "real \<Rightarrow> real \<Rightarrow> Coordinate" where
  "coordinate a b = \<lparr>px = Num a, py = Num b\<rparr>"

definition site_at :: "nat \<Rightarrow> real \<Rightarrow> real \<Rightarrow> Site" where
  "site_at i a b = \<lparr>ident = i, coords = coordinate a b\<rparr>"


section \<open>Edge vertex assignment\<close>

lemma distanceFromPlane_right:
  "distanceFromPlane (coordinate 0 0) (coordinate 0 1) (coordinate 1 0) = Num 1"
  by (simp add: distanceFromPlane_def getNormal_def js_sub_def Let_def coordinate_def)

lemma distanceFromPlane_left:
  "distanceFromPlane (coordinate 0 0) (coordinate 0 1) (coordinate (- 1) 0) = Num (- 1)"
  by (simp add: distanceFromPlane_def getNormal_def js_sub_def Let_def coordinate_def)

text \<open>
  C2, as the code has it. A vertex \<open>V\<close> written into an edge goes to \<open>firstVertex\<close> when
  \<open>distanceFromPlane(leftFace, rightFace, V) > 0\<close> and to \<open>lastVertex\<close> otherwise; the
  faces and the other slot are unchanged. The write always happens: when the designated
  slot is already populated the code logs \<open>vertex addition error\<close> and overwrites the slot
  with \<open>V\<close>.
\<close>

theorem addVertexToEdge_overwrites:
  "leftFace (addVertexToEdge e v) = leftFace e \<and> rightFace (addVertexToEdge e v) = rightFace e \<and>
   (js_gt (distanceFromPlane (coords (leftFace e)) (coords (rightFace e)) v) (Num 0) \<longrightarrow>
      firstVertex (addVertexToEdge e v) = Some v \<and> lastVertex (addVertexToEdge e v) = lastVertex e \<and>
      (vertex_addition_error e v \<longleftrightarrow> firstVertex e \<noteq> None)) \<and>
   (\<not> js_gt (distanceFromPlane (coords (leftFace e)) (coords (rightFace e)) v) (Num 0) \<longrightarrow>
      lastVertex (addVertexToEdge e v) = Some v \<and> firstVertex (addVertexToEdge e v) = firstVertex e \<and>
      (vertex_addition_error e v \<longleftrightarrow> lastVertex e \<noteq> None))"
  by (simp add: addVertexToEdge_def vertex_addition_error_def)

theorem addVertexToEdge_overwrites_witness:
  "js_gt (distanceFromPlane (coordinate 0 0) (coordinate 0 1) (coordinate 1 0)) (Num 0) \<and>
   firstVertex (addVertexToEdge \<lparr>leftFace = site_at 0 0 0, rightFace = site_at 1 0 1,
                                 firstVertex = Some (coordinate 5 5), lastVertex = None\<rparr>
                  (coordinate 1 0)) = Some (coordinate 1 0) \<and>
   vertex_addition_error \<lparr>leftFace = site_at 0 0 0, rightFace = site_at 1 0 1,
                           firstVertex = Some (coordinate 5 5), lastVertex = None\<rparr> (coordinate 1 0) \<and>
   \<not> js_gt (distanceFromPlane (coordinate 0 0) (coordinate 0 1) (coordinate (- 1) 0)) (Num 0) \<and>
   lastVertex (addVertexToEdge \<lparr>leftFace = site_at 0 0 0, rightFace = site_at 1 0 1,
                                firstVertex = None, lastVertex = None\<rparr>
                  (coordinate (- 1) 0)) = Some (coordinate (- 1) 0)"
  using addVertexToEdge_overwrites[of "\<lparr>leftFace = site_at 0 0 0, rightFace = site_at 1 0 1,
                                        firstVertex = Some (coordinate 5 5), lastVertex = None\<rparr>"
                                      "coordinate 1 0"]
        addVertexToEdge_overwrites[of "\<lparr>leftFace = site_at 0 0 0, rightFace = site_at 1 0 1,
                                        firstVertex = None, lastVertex = None\<rparr>"
                                      "coordinate (- 1) 0"]
  by (simp add: site_at_def distanceFromPlane_right distanceFromPlane_left js_gt_def)

text \<open>
  The second write is not dropped: the edge from \<open>(0,0)\<close> to \<open>(0,1)\<close> already has the first
  vertex \<open>(5,5)\<close>; the vertex \<open>(1,0)\<close> lies on its positive side and replaces it.
\<close>

theorem addVertexToEdge_second_write_counterexample:
  "js_gt (distanceFromPlane (coords (site_at 0 0 0)) (coords (site_at 1 0 1)) (coordinate 1 0)) (Num 0) \<and>
   addVertexToEdge \<lparr>leftFace = site_at 0 0 0, rightFace = site_at 1 0 1,
                     firstVertex = Some (coordinate 5 5), lastVertex = None\<rparr> (coordinate 1 0) =
     \<lparr>leftFace = site_at 0 0 0, rightFace = site_at 1 0 1,
      firstVertex = Some (coordinate 1 0), lastVertex = None\<rparr>"
  by (simp add: addVertexToEdge_def site_at_def distanceFromPlane_right js_gt_def)

section \<open>Edge lookup\<close>

lemma array_find_None: "array_find P xs = None \<longleftrightarrow> (\<forall>x\<in>set xs. \<not> P x)"
  by (induction xs) auto





section \<open>Finalization\<close>

lemma js_gt_sub_zero: "js_gt (js_sub a b) (Num 0) = js_gt a b"
  by (cases a; cases b) (auto simp: js_gt_def js_sub_def)

lemma completeEdge_idem: "completeEdge (completeEdge e) = completeEdge e"
  by (cases "firstVertex e"; cases "lastVertex e") (auto simp: completeEdge_def Let_def)

text \<open>
  C6. Finalization maps \<open>completeEdge\<close> over the edges. An edge that misses only
  \<open>firstVertex\<close> gets the endpoint with \<open>x = 100\<close> when the \<open>x\<close> of the midpoint of its faces
  is strictly greater than \<open>lastVertex.x\<close> and \<open>x = -100\<close> otherwise, and with
  \<open>y = bisectorY(leftFace, rightFace, x)\<close>; the same holds for an edge that misses only
  \<open>lastVertex\<close>, with the roles of the two vertices exchanged; an edge that misses both
  vertices is unchanged.
\<close>

theorem completeUnboundEdges_envelope:
  "edges (completeUnboundEdges d) = map completeEdge (edges d) \<and>
   (firstVertex e = None \<and> lastVertex e = Some v \<longrightarrow>
      completeEdge e = e\<lparr>firstVertex := Some
        \<lparr>px = (if js_gt (js_div (js_add (px (coords (leftFace e))) (px (coords (rightFace e)))) (Num 2)) (px v)
               then Num 100 else Num (- 100)),
         py = bisectorY (coords (leftFace e)) (coords (rightFace e))
               (if js_gt (js_div (js_add (px (coords (leftFace e))) (px (coords (rightFace e)))) (Num 2)) (px v)
                then Num 100 else Num (- 100))\<rparr>\<rparr>) \<and>
   (firstVertex e = Some v \<and> lastVertex e = None \<longrightarrow>
      completeEdge e = e\<lparr>lastVertex := Some
        \<lparr>px = (if js_gt (js_div (js_add (px (coords (leftFace e))) (px (coords (rightFace e)))) (Num 2)) (px v)
               then Num 100 else Num (- 100)),
         py = bisectorY (coords (leftFace e)) (coords (rightFace e))
               (if js_gt (js_div (js_add (px (coords (leftFace e))) (px (coords (rightFace e)))) (Num 2)) (px v)
                then Num 100 else Num (- 100))\<rparr>\<rparr>) \<and>
   (firstVertex e = None \<and> lastVertex e = None \<longrightarrow> completeEdge e = e)"
  by (auto simp: completeEdge_def Let_def js_gt_sub_zero completeUnboundEdges_def)

lemma bisectorY_finite:
  assumes "px a = Num ax" "px b = Num bx" "py a = Num ay" "py b = Num by"
  shows "bisectorY a b (Num xv) =
           Num ((xv - (ax + bx) / 2) * (if by - ay = 0 then 1 / 2 ^ 52 else (ax - bx) / (by - ay))
                + (ay + by) / 2)"
  using assms by (simp add: bisectorY_def js_sub_def Let_def Number_EPSILON_def)

theorem completeUnboundEdges_envelope_witness:
  "completeEdge \<lparr>leftFace = site_at 0 0 0, rightFace = site_at 1 4 2,
                  firstVertex = None, lastVertex = Some (coordinate 1 3)\<rparr> =
     \<lparr>leftFace = site_at 0 0 0, rightFace = site_at 1 4 2,
      firstVertex = Some (coordinate 100 (- 195)), lastVertex = Some (coordinate 1 3)\<rparr> \<and>
   completeEdge \<lparr>leftFace = site_at 0 0 0, rightFace = site_at 1 4 2,
                  firstVertex = Some (coordinate 3 (- 1)), lastVertex = None\<rparr> =
     \<lparr>leftFace = site_at 0 0 0, rightFace = site_at 1 4 2,
      firstVertex = Some (coordinate 3 (- 1)), lastVertex = Some (coordinate (- 100) 205)\<rparr> \<and>
   completeEdge \<lparr>leftFace = site_at 0 0 0, rightFace = site_at 1 4 2,
                  firstVertex = None, lastVertex = None\<rparr> =
     \<lparr>leftFace = site_at 0 0 0, rightFace = site_at 1 4 2, firstVertex = None, lastVertex = None\<rparr>"
  using completeUnboundEdges_envelope[of undefined
          "\<lparr>leftFace = site_at 0 0 0, rightFace = site_at 1 4 2,
            firstVertex = None, lastVertex = Some (coordinate 1 3)\<rparr>" "coordinate 1 3"]
        completeUnboundEdges_envelope[of undefined
          "\<lparr>leftFace = site_at 0 0 0, rightFace = site_at 1 4 2,
            firstVertex = Some (coordinate 3 (- 1)), lastVertex = None\<rparr>" "coordinate 3 (- 1)"]
        completeUnboundEdges_envelope[of undefined
          "\<lparr>leftFace = site_at 0 0 0, rightFace = site_at 1 4 2,
            firstVertex = None, lastVertex = None\<rparr>" undefined]
        bisectorY_finite[of "coordinate 0 0" 0 "coordinate 4 2" 4 0 2]
  by (simp add: site_at_def coordinate_def js_gt_def)

text \<open>
  C7. Finalization is idempotent: a second run of \<open>completeUnboundEdges\<close> changes no field
  of any edge (nor anything else of the diagram).
\<close>

theorem completeUnboundEdges_idempotent:
  "completeUnboundEdges (completeUnboundEdges d) = completeUnboundEdges d"
  by (simp add: completeUnboundEdges_def completeEdge_idem)

section \<open>The bisector of two points of equal height\<close>




section \<open>Two sites\<close>

lemma new_VoronoiDiagram_two:
  "new_VoronoiDiagram [a, b] =
     (let firstSite = (if js_gt (sortSites_compare \<lparr>point = a\<rparr> \<lparr>point = b\<rparr>) (Num 0) then a else b);
          secondSite = (if js_gt (sortSites_compare \<lparr>point = a\<rparr> \<lparr>point = b\<rparr>) (Num 0) then b else a)
      in Inr \<lparr>activeSites = [\<lparr>site = firstSite, arcs = [1, 2]\<rparr>, \<lparr>site = secondSite, arcs = [0]\<rparr>],
              edges = [\<lparr>leftFace = firstSite, rightFace = secondSite, firstVertex = None, lastVertex = None\<rparr>],
              lineSweepPosition = Num 0,
              queue = \<lparr>siteEvents = [], vertexEvents = []\<rparr>,
              arcHeap = [\<lparr>activeSite = 1, rightArc = Some 2, leftArc = Some 1\<rparr>,
                         \<lparr>activeSite = 0, rightArc = Some 0, leftArc = None\<rparr>,
                         \<lparr>activeSite = 0, rightArc = None, leftArc = Some 0\<rparr>]\<rparr>)"
  by (simp add: new_VoronoiDiagram_def insertFirstSites_def pushSiteEvents_def sortSites_def
        new_PriorityQueue_def array_sort_def pop_def array_pop_def Let_def)

lemma diagram_edges_two:
  "diagram_edges [a, b] =
     Inr [\<lparr>leftFace = (if js_gt (sortSites_compare \<lparr>point = a\<rparr> \<lparr>point = b\<rparr>) (Num 0) then a else b),
           rightFace = (if js_gt (sortSites_compare \<lparr>point = a\<rparr> \<lparr>point = b\<rparr>) (Num 0) then b else a),
           firstVertex = None, lastVertex = None\<rparr>]"
  by (simp add: diagram_edges_def new_VoronoiDiagram_two Let_def compute_def compute_loop_empty
        isEmpty_def completeUnboundEdges_def completeEdge_def)

text \<open>
  C3, as the code has it. For an input of two sites \<open>a\<close> and \<open>b\<close>, the constructor and
  \<open>compute()\<close> return normally with exactly one edge. Its faces are the two sites: the left
  face is the site popped first (the second of the input when the comparison of
  \<open>sortSites\<close> does not put \<open>a\<close> after \<open>b\<close>). No vertex event ever fires, and
  finalization leaves an edge without any vertex alone: both endpoints are still absent.
\<close>

theorem two_sites_one_open_edge:
  "diagram_edges [a, b] =
     Inr [\<lparr>leftFace = (if js_gt (sortSites_compare \<lparr>point = a\<rparr> \<lparr>point = b\<rparr>) (Num 0) then a else b),
           rightFace = (if js_gt (sortSites_compare \<lparr>point = a\<rparr> \<lparr>point = b\<rparr>) (Num 0) then b else a),
           firstVertex = None, lastVertex = None\<rparr>]"
  by (rule diagram_edges_two)

text \<open>
  The sites \<open>(0,0)\<close> and \<open>(2,0)\<close> of the specification's own scenario: the one edge has no
  endpoint at \<open>x = 100\<close> or \<open>x = -100\<close>, it has no endpoint at all.
\<close>

theorem two_sites_endpoints_counterexample:
  "diagram_edges [site_at 0 0 0, site_at 1 2 0] =
     Inr [\<lparr>leftFace = site_at 0 0 0, rightFace = site_at 1 2 0,
           firstVertex = None, lastVertex = None\<rparr>]"
  by (simp add: diagram_edges_two sortSites_compare_def js_gt_def js_sub_def site_at_def coordinate_def)

section \<open>The order of the events\<close>

text \<open>
  \<open>lex_ge p q\<close>: the point \<open>p\<close> is not below \<open>q\<close>, and at the same height not to the left of
  it. On finite coordinates this is the lexicographic order by \<open>y\<close>, then \<open>x\<close>.
\<close>

definition lex_ge :: "Coordinate \<Rightarrow> Coordinate \<Rightarrow> bool" where
  "lex_ge p q = (js_gt (py p) (py q) \<or> (js_eq (py p) (py q) \<and> \<not> js_lt (px p) (px q)))"

definition finite_coordinate :: "Coordinate \<Rightarrow> bool" where
  "finite_coordinate p = (is_finite (px p) \<and> is_finite (py p))"

text \<open>The \<open>y\<close> of the event that \<open>pop\<close> returned.\<close>

definition popped_y :: "EventResult \<Rightarrow> number" where
  "popped_y r = (if isSiteEvent r then py (coords (point (the (siteEvent r))))
                 else py (eventPoint (the (vertexEvent r))))"

lemma is_finite_iff: "is_finite a \<longleftrightarrow> (\<exists>r. a = Num r)"
  by (cases a) auto

lemma sorted_wrt_insert_sorted:
  assumes keep: "\<And>x y. x \<in> S \<Longrightarrow> y \<in> S \<Longrightarrow> \<not> js_gt (cmp x y) (Num 0) \<Longrightarrow> R x y"
    and swap: "\<And>x y. x \<in> S \<Longrightarrow> y \<in> S \<Longrightarrow> js_gt (cmp x y) (Num 0) \<Longrightarrow> R y x"
    and trans: "\<And>x y z. x \<in> S \<Longrightarrow> y \<in> S \<Longrightarrow> z \<in> S \<Longrightarrow> R x y \<Longrightarrow> R y z \<Longrightarrow> R x z"
    and "sorted_wrt R xs" and "set xs \<subseteq> S" and "e \<in> S"
  shows "sorted_wrt R (insert_sorted cmp e xs)"
  using assms(4-)
proof (induction xs)
  case Nil
  then show ?case by simp
next
  case (Cons h t)
  show ?case
  proof (cases "js_gt (cmp e h) (Num 0)")
    case True
    have "R h e" using swap[of e h] True Cons.prems by simp
    moreover have "\<forall>z\<in>set t. R h z" using Cons.prems by simp
    ultimately have "\<forall>z\<in>set (insert_sorted cmp e t). R h z"
      by (simp add: set_insert_sorted)
    moreover have "sorted_wrt R (insert_sorted cmp e t)"
      using Cons by simp
    ultimately show ?thesis using True by simp
  next
    case False
    have eh: "R e h" using keep[of e h] False Cons.prems by simp
    have "\<forall>z\<in>set t. R e z"
    proof
      fix z assume z: "z \<in> set t"
      then have "R h z" using Cons.prems by simp
      with eh show "R e z" using trans[of e h z] Cons.prems z by auto
    qed
    with eh False Cons.prems show ?thesis by simp
  qed
qed

lemma sorted_wrt_array_sort:
  assumes keep: "\<And>x y. x \<in> S \<Longrightarrow> y \<in> S \<Longrightarrow> \<not> js_gt (cmp x y) (Num 0) \<Longrightarrow> R x y"
    and swap: "\<And>x y. x \<in> S \<Longrightarrow> y \<in> S \<Longrightarrow> js_gt (cmp x y) (Num 0) \<Longrightarrow> R y x"
    and trans: "\<And>x y z. x \<in> S \<Longrightarrow> y \<in> S \<Longrightarrow> z \<in> S \<Longrightarrow> R x y \<Longrightarrow> R y z \<Longrightarrow> R x z"
    and "set xs \<subseteq> S"
  shows "sorted_wrt R (array_sort cmp xs)"
  using assms(4)
proof (induction xs)
  case Nil
  then show ?case by (simp add: array_sort_def)
next
  case (Cons a xs)
  have "sorted_wrt R (insert_sorted cmp a (array_sort cmp xs))"
    by (rule sorted_wrt_insert_sorted[where S = S, OF keep swap trans])
       (use Cons in \<open>auto simp: set_array_sort\<close>)
  then show ?case by (simp add: array_sort_def)
qed

lemma lex_ge_trans:
  "finite_coordinate p \<Longrightarrow> finite_coordinate q \<Longrightarrow> finite_coordinate r \<Longrightarrow>
   lex_ge p q \<Longrightarrow> lex_ge q r \<Longrightarrow> lex_ge p r"
  by (auto simp: lex_ge_def finite_coordinate_def is_finite_iff js_gt_def)

lemma sortSites_compare_keep:
  "finite_coordinate (coords (point a)) \<Longrightarrow> finite_coordinate (coords (point b)) \<Longrightarrow>
   \<not> js_gt (sortSites_compare a b) (Num 0) \<Longrightarrow> lex_ge (coords (point a)) (coords (point b))"
  by (auto simp: lex_ge_def finite_coordinate_def is_finite_iff js_gt_def sortSites_compare_def js_sub_def
           split: if_splits)

lemma sortSites_compare_swap:
  "finite_coordinate (coords (point a)) \<Longrightarrow> finite_coordinate (coords (point b)) \<Longrightarrow>
   js_gt (sortSites_compare a b) (Num 0) \<Longrightarrow> lex_ge (coords (point b)) (coords (point a))"
  by (auto simp: lex_ge_def finite_coordinate_def is_finite_iff js_gt_def sortSites_compare_def js_sub_def
           split: if_splits)

lemma sortVertices_compare_keep:
  "finite_coordinate (eventPoint a) \<Longrightarrow> finite_coordinate (eventPoint b) \<Longrightarrow>
   \<not> js_gt (sortVertices_compare a b) (Num 0) \<Longrightarrow> lex_ge (eventPoint a) (eventPoint b)"
  by (auto simp: lex_ge_def finite_coordinate_def is_finite_iff js_gt_def sortVertices_compare_def js_sub_def
           split: if_splits)

lemma sortVertices_compare_swap:
  "finite_coordinate (eventPoint a) \<Longrightarrow> finite_coordinate (eventPoint b) \<Longrightarrow>
   js_gt (sortVertices_compare a b) (Num 0) \<Longrightarrow> lex_ge (eventPoint b) (eventPoint a)"
  by (auto simp: lex_ge_def finite_coordinate_def is_finite_iff js_gt_def sortVertices_compare_def js_sub_def
           split: if_splits)

lemma sortSites_sorted:
  assumes "\<forall>e\<in>set (siteEvents q). finite_coordinate (coords (point e))"
  shows "sorted_wrt (\<lambda>e e'. lex_ge (coords (point e)) (coords (point e'))) (siteEvents (sortSites q))"
  unfolding sortSites_def
  using assms
  by (auto intro!: sorted_wrt_array_sort[where S = "{e. finite_coordinate (coords (point e))}"]
           intro: sortSites_compare_keep sortSites_compare_swap lex_ge_trans)

lemma sortVertices_sorted:
  assumes "\<forall>e\<in>set (vertexEvents q). finite_coordinate (eventPoint e)"
  shows "sorted_wrt (\<lambda>e e'. lex_ge (eventPoint e) (eventPoint e')) (vertexEvents (sortVertices q))"
  unfolding sortVertices_def
  using assms
  by (auto intro!: sorted_wrt_array_sort[where S = "{e. finite_coordinate (eventPoint e)}"]
           intro: sortVertices_compare_keep sortVertices_compare_swap lex_ge_trans)

lemma pop_both:
  assumes "siteEvents q \<noteq> []" and "vertexEvents q \<noteq> []"
  shows "pop q =
     (if js_lt (py (coords (point (last (siteEvents q))))) (py (eventPoint (last (vertexEvents q))))
      then (\<lparr>isSiteEvent = True, siteEvent = Some (last (siteEvents q)), vertexEvent = None\<rparr>,
            q\<lparr>siteEvents := butlast (siteEvents q)\<rparr>)
      else (\<lparr>isSiteEvent = False, siteEvent = None, vertexEvent = Some (last (vertexEvents q))\<rparr>,
            q\<lparr>vertexEvents := butlast (vertexEvents q)\<rparr>))"
  using assms by (simp add: pop_def Let_def)

lemma sorted_wrt_last:
  "sorted_wrt R xs \<Longrightarrow> e \<in> set xs \<Longrightarrow> e = last xs \<or> R e (last xs)"
  by (cases xs rule: rev_cases) (auto simp: sorted_wrt_append)

lemma lex_ge_not_lt:
  "finite_coordinate p \<Longrightarrow> finite_coordinate q \<Longrightarrow> lex_ge p q \<Longrightarrow> \<not> js_lt (py p) (py q)"
  by (auto simp: lex_ge_def finite_coordinate_def is_finite_iff js_gt_def)

lemma js_lt_irrefl: "\<not> js_lt a a"
  by (cases a) auto

lemma y_ge_last:
  assumes "sorted_wrt (\<lambda>e e'. lex_ge (f e) (f e')) xs" and "\<forall>e\<in>set xs. finite_coordinate (f e)"
    and "e \<in> set xs"
  shows "\<not> js_lt (py (f e)) (py (f (last xs)))"
proof -
  have "last xs \<in> set xs" using assms(3) by (cases xs rule: rev_cases) auto
  with sorted_wrt_last[OF assms(1) assms(3)] assms(2,3) show ?thesis
    by (auto simp: js_lt_irrefl dest: lex_ge_not_lt)
qed

lemma js_lt_trans_fin:
  "is_finite a \<Longrightarrow> is_finite b \<Longrightarrow> is_finite c \<Longrightarrow> \<not> js_lt a b \<Longrightarrow> \<not> js_lt b c \<Longrightarrow> \<not> js_lt a c"
  by (auto simp: is_finite_iff)

lemma pop_lowest:
  assumes ss: "sorted_wrt (\<lambda>e e'. lex_ge (coords (point e)) (coords (point e'))) (siteEvents q)"
    and sv: "sorted_wrt (\<lambda>e e'. lex_ge (eventPoint e) (eventPoint e')) (vertexEvents q)"
    and fs: "\<forall>e\<in>set (siteEvents q). finite_coordinate (coords (point e))"
    and fv: "\<forall>e\<in>set (vertexEvents q). finite_coordinate (eventPoint e)"
  shows "(\<forall>e\<in>set (siteEvents q). \<not> js_lt (py (coords (point e))) (popped_y (fst (pop q)))) \<and>
         (\<forall>e\<in>set (vertexEvents q). \<not> js_lt (py (eventPoint e)) (popped_y (fst (pop q))))"
proof (cases "vertexEvents q = []")
  case True
  then show ?thesis
    using y_ge_last[where f = "\<lambda>e. coords (point e)", OF ss fs]
    by (auto simp: pop_def array_pop_def popped_y_def)
next
  case v: False
  show ?thesis
  proof (cases "siteEvents q = []")
    case True
    then show ?thesis
      using v y_ge_last[where f = eventPoint, OF sv fv]
      by (auto simp: pop_def array_pop_def popped_y_def)
  next
    case s: False
    let ?s = "py (coords (point (last (siteEvents q))))"
    let ?v = "py (eventPoint (last (vertexEvents q)))"
    have fin: "is_finite ?s" "is_finite ?v"
      using s v fs fv by (auto simp: finite_coordinate_def)
    have S: "\<not> js_lt (py (coords (point e))) ?s" if "e \<in> set (siteEvents q)" for e
      using y_ge_last[where f = "\<lambda>e. coords (point e)", OF ss fs that] .
    have V: "\<not> js_lt (py (eventPoint e)) ?v" if "e \<in> set (vertexEvents q)" for e
      using y_ge_last[where f = eventPoint, OF sv fv that] .
    show ?thesis
    proof (cases "js_lt ?s ?v")
      case True
      have "\<not> js_lt (py (eventPoint e)) ?s" if "e \<in> set (vertexEvents q)" for e
        using V[OF that] True fin fv that
        by (auto simp: is_finite_iff finite_coordinate_def)
      with S True s v show ?thesis
        by (auto simp: pop_def Let_def popped_y_def)
    next
      case False
      have "\<not> js_lt (py (coords (point e))) ?v" if "e \<in> set (siteEvents q)" for e
        using S[OF that] False fin fs that
        by (auto simp: is_finite_iff finite_coordinate_def)
      with V False s v show ?thesis
        by (auto simp: pop_def Let_def popped_y_def)
    qed
  qed
qed

text \<open>
  C1, as the code has it. The sweep is bottom-up. When both sequences are non-empty,
  \<open>pop()\<close> returns the site event when its \<open>y\<close> is strictly lower than the \<open>y\<close> of the next
  vertex event, and the vertex event otherwise, in particular when the two are equal; the
  event returned is removed and the other sequence is unchanged. With finite coordinates
  each sequence is sorted so that an element is never below a later one, and at the same
  height never to its left: the last element, the one popped, is the lowest (ties: the
  leftmost). Consequently \<open>pop()\<close> returns an event of lowest \<open>y\<close> among all events of the
  queue.
\<close>

theorem pop_takes_lower_y:
  "(siteEvents q \<noteq> [] \<and> vertexEvents q \<noteq> [] \<longrightarrow>
      pop q =
        (if js_lt (py (coords (point (last (siteEvents q))))) (py (eventPoint (last (vertexEvents q))))
         then (\<lparr>isSiteEvent = True, siteEvent = Some (last (siteEvents q)), vertexEvent = None\<rparr>,
               q\<lparr>siteEvents := butlast (siteEvents q)\<rparr>)
         else (\<lparr>isSiteEvent = False, siteEvent = None, vertexEvent = Some (last (vertexEvents q))\<rparr>,
               q\<lparr>vertexEvents := butlast (vertexEvents q)\<rparr>))) \<and>
   ((\<forall>s\<in>set values. finite_coordinate (coords s)) \<longrightarrow>
      sorted_wrt (\<lambda>e e'. lex_ge (coords (point e)) (coords (point e')))
        (siteEvents (pushSiteEvents qs values))) \<and>
   ((\<forall>e\<in>set (vertexEvents qv @ events). finite_coordinate (eventPoint e)) \<longrightarrow>
      sorted_wrt (\<lambda>e e'. lex_ge (eventPoint e) (eventPoint e'))
        (vertexEvents (pushVertexEvents qv events)) \<and>
      sorted_wrt (\<lambda>e e'. lex_ge (eventPoint e) (eventPoint e'))
        (vertexEvents (removeVertexEvents qv events))) \<and>
   (sorted_wrt (\<lambda>e e'. lex_ge (coords (point e)) (coords (point e'))) (siteEvents q) \<and>
    sorted_wrt (\<lambda>e e'. lex_ge (eventPoint e) (eventPoint e')) (vertexEvents q) \<and>
    (\<forall>e\<in>set (siteEvents q). finite_coordinate (coords (point e))) \<and>
    (\<forall>e\<in>set (vertexEvents q). finite_coordinate (eventPoint e)) \<longrightarrow>
      (\<forall>e\<in>set (siteEvents q). \<not> js_lt (py (coords (point e))) (popped_y (fst (pop q)))) \<and>
      (\<forall>e\<in>set (vertexEvents q). \<not> js_lt (py (eventPoint e)) (popped_y (fst (pop q)))))"
proof -
  have sites: "sorted_wrt (\<lambda>e e'. lex_ge (coords (point e)) (coords (point e')))
                 (siteEvents (pushSiteEvents qs values))"
    if "\<forall>s\<in>set values. finite_coordinate (coords s)"
    unfolding pushSiteEvents_def by (rule sortSites_sorted) (use that in auto)
  have pushed: "sorted_wrt (\<lambda>e e'. lex_ge (eventPoint e) (eventPoint e'))
                  (vertexEvents (pushVertexEvents qv events))"
    if "\<forall>e\<in>set (vertexEvents qv @ events). finite_coordinate (eventPoint e)"
    unfolding pushVertexEvents_def by (rule sortVertices_sorted) (use that in auto)
  have removed: "sorted_wrt (\<lambda>e e'. lex_ge (eventPoint e) (eventPoint e'))
                   (vertexEvents (removeVertexEvents qv events))"
    if "\<forall>e\<in>set (vertexEvents qv @ events). finite_coordinate (eventPoint e)"
    unfolding removeVertexEvents_def by (rule sortVertices_sorted) (use that in auto)
  from pop_both[of q] sites pushed removed pop_lowest[of q] show ?thesis
    by blast
qed

theorem pop_takes_lower_y_witness:
  "pop \<lparr>siteEvents = [\<lparr>point = site_at 1 5 3\<rparr>, \<lparr>point = site_at 0 0 1\<rparr>],
        vertexEvents = [\<lparr>VertexEvent.arcs = [0, 1, 2], eventPoint = coordinate 0 2,
                         vertexPoint = coordinate 0 1\<rparr>]\<rparr> =
     (\<lparr>isSiteEvent = True, siteEvent = Some \<lparr>point = site_at 0 0 1\<rparr>, vertexEvent = None\<rparr>,
      \<lparr>siteEvents = [\<lparr>point = site_at 1 5 3\<rparr>],
       vertexEvents = [\<lparr>VertexEvent.arcs = [0, 1, 2], eventPoint = coordinate 0 2,
                        vertexPoint = coordinate 0 1\<rparr>]\<rparr>) \<and>
   siteEvents (pushSiteEvents new_PriorityQueue
                 [site_at 0 3 3, site_at 1 12 3, site_at 2 8 5, site_at 3 10 5]) =
     [\<lparr>point = site_at 3 10 5\<rparr>, \<lparr>point = site_at 2 8 5\<rparr>,
      \<lparr>point = site_at 1 12 3\<rparr>, \<lparr>point = site_at 0 3 3\<rparr>] \<and>
   sorted_wrt (\<lambda>e e'. lex_ge (coords (point e)) (coords (point e')))
     (siteEvents (pushSiteEvents new_PriorityQueue
                    [site_at 0 3 3, site_at 1 12 3, site_at 2 8 5, site_at 3 10 5])) \<and>
   sorted_wrt (\<lambda>e e'. lex_ge (eventPoint e) (eventPoint e'))
     (vertexEvents (pushVertexEvents
        \<lparr>siteEvents = [], vertexEvents = [\<lparr>VertexEvent.arcs = [0, 1, 2], eventPoint = coordinate 0 2,
                                          vertexPoint = coordinate 0 1\<rparr>]\<rparr>
        [\<lparr>VertexEvent.arcs = [2, 3, 4], eventPoint = coordinate 1 4, vertexPoint = coordinate 1 3\<rparr>])) \<and>
   \<not> js_lt (Num 2)
        (popped_y (fst (pop \<lparr>siteEvents = [\<lparr>point = site_at 1 5 3\<rparr>, \<lparr>point = site_at 0 0 1\<rparr>],
                             vertexEvents = [\<lparr>VertexEvent.arcs = [0, 1, 2], eventPoint = coordinate 0 2,
                                              vertexPoint = coordinate 0 1\<rparr>]\<rparr>)))"
  using pop_takes_lower_y[of
      "\<lparr>siteEvents = [\<lparr>point = site_at 1 5 3\<rparr>, \<lparr>point = site_at 0 0 1\<rparr>],
        vertexEvents = [\<lparr>VertexEvent.arcs = [0, 1, 2], eventPoint = coordinate 0 2,
                         vertexPoint = coordinate 0 1\<rparr>]\<rparr>"
      "[site_at 0 3 3, site_at 1 12 3, site_at 2 8 5, site_at 3 10 5]"
      new_PriorityQueue
      "\<lparr>siteEvents = [], vertexEvents = [\<lparr>VertexEvent.arcs = [0, 1, 2], eventPoint = coordinate 0 2,
                                          vertexPoint = coordinate 0 1\<rparr>]\<rparr>"
      "[\<lparr>VertexEvent.arcs = [2, 3, 4], eventPoint = coordinate 1 4, vertexPoint = coordinate 1 3\<rparr>]"]
  by (simp add: pushSiteEvents_def sortSites_def new_PriorityQueue_def array_sort_def
        sortSites_compare_def site_at_def coordinate_def js_gt_def js_sub_def lex_ge_def
        finite_coordinate_def popped_y_def pop_def pushVertexEvents_def sortVertices_def
        sortVertices_compare_def)

text \<open>
  \<open>pop()\<close> does not return the event with the higher \<open>y\<close>: with a site at height 1 and a
  vertex event at height 2 it returns the site event. On a tie the site does not win: with
  both at height 1 it returns the vertex event.
\<close>

theorem pop_higher_y_counterexample:
  "fst (pop \<lparr>siteEvents = [\<lparr>point = site_at 0 0 1\<rparr>],
             vertexEvents = [\<lparr>VertexEvent.arcs = [0, 1, 2], eventPoint = coordinate 0 2,
                              vertexPoint = coordinate 0 1\<rparr>]\<rparr>) =
     \<lparr>isSiteEvent = True, siteEvent = Some \<lparr>point = site_at 0 0 1\<rparr>, vertexEvent = None\<rparr> \<and>
   fst (pop \<lparr>siteEvents = [\<lparr>point = site_at 0 0 1\<rparr>],
             vertexEvents = [\<lparr>VertexEvent.arcs = [0, 1, 2], eventPoint = coordinate 0 1,
                              vertexPoint = coordinate 0 0\<rparr>]\<rparr>) =
     \<lparr>isSiteEvent = False, siteEvent = None,
      vertexEvent = Some \<lparr>VertexEvent.arcs = [0, 1, 2], eventPoint = coordinate 0 1,
                           vertexPoint = coordinate 0 0\<rparr>\<rparr>"
  by (simp add: pop_def site_at_def coordinate_def)

section \<open>The circle through three points\<close>

lemma sort3_swap12:
  assumes "finite_coordinate a" "finite_coordinate b" "finite_coordinate c"
  shows "array_sort circle_compare [a, b, c] = array_sort circle_compare [b, a, c]"
proof -
  obtain ax ay bx "by" cx cy where
    "a = \<lparr>px = Num ax, py = Num ay\<rparr>" "b = \<lparr>px = Num bx, py = Num by\<rparr>" "c = \<lparr>px = Num cx, py = Num cy\<rparr>"
    using assms by (cases a; cases b; cases c) (auto simp: finite_coordinate_def is_finite_iff)
  then show ?thesis
    by (auto simp: array_sort_def circle_compare_def js_gt_def js_sub_def)
qed

lemma sort3_swap23:
  assumes "finite_coordinate a" "finite_coordinate b" "finite_coordinate c"
  shows "array_sort circle_compare [a, b, c] = array_sort circle_compare [a, c, b]"
proof -
  obtain ax ay bx "by" cx cy where
    "a = \<lparr>px = Num ax, py = Num ay\<rparr>" "b = \<lparr>px = Num bx, py = Num by\<rparr>" "c = \<lparr>px = Num cx, py = Num cy\<rparr>"
    using assms by (cases a; cases b; cases c) (auto simp: finite_coordinate_def is_finite_iff)
  then show ?thesis
    by (auto simp: array_sort_def circle_compare_def js_gt_def js_sub_def)
qed

lemma circle_swap12:
  assumes "finite_coordinate a" "finite_coordinate b" "finite_coordinate c"
  shows "circle a b c = circle b a c"
  unfolding circle_def by (simp only: sort3_swap12[OF assms])

lemma circle_swap23:
  assumes "finite_coordinate a" "finite_coordinate b" "finite_coordinate c"
  shows "circle a b c = circle a c b"
  unfolding circle_def by (simp only: sort3_swap23[OF assms])

lemma circle_compare_keep:
  "finite_coordinate p \<Longrightarrow> finite_coordinate q \<Longrightarrow>
   \<not> js_gt (circle_compare p q) (Num 0) \<Longrightarrow> lex_ge q p"
  by (auto simp: lex_ge_def finite_coordinate_def is_finite_iff js_gt_def circle_compare_def js_sub_def
           split: if_splits)

lemma circle_compare_swap:
  "finite_coordinate p \<Longrightarrow> finite_coordinate q \<Longrightarrow>
   js_gt (circle_compare p q) (Num 0) \<Longrightarrow> lex_ge p q"
  by (auto simp: lex_ge_def finite_coordinate_def is_finite_iff js_gt_def circle_compare_def js_sub_def
           split: if_splits)

lemma circle_sorted:
  assumes "finite_coordinate a" "finite_coordinate b" "finite_coordinate c"
  shows "sorted_wrt (\<lambda>p q. lex_ge q p) (array_sort circle_compare [a, b, c])"
  using assms
  by (auto intro!: sorted_wrt_array_sort[where S = "{p. finite_coordinate p}"]
           intro: circle_compare_keep circle_compare_swap lex_ge_trans)

text \<open>
  C5. For three points with finite coordinates, \<open>circle\<close> returns the same centre and the
  same radius for each of the six orders of its arguments: it computes from the list of
  the three points sorted by ascending \<open>y\<close>, ties by ascending \<open>x\<close>, which is the same list
  for every order. (The points need not be distinct: \<open>circle\<close> reads their coordinates
  only.)
\<close>

theorem circle_permutation_invariant:
  assumes "finite_coordinate a" and "finite_coordinate b" and "finite_coordinate c"
  shows "circle a c b = circle a b c \<and> circle b a c = circle a b c \<and> circle b c a = circle a b c \<and>
         circle c a b = circle a b c \<and> circle c b a = circle a b c \<and>
         sorted_wrt (\<lambda>p q. lex_ge q p) (array_sort circle_compare [a, b, c])"
proof -
  have "circle a c b = circle a b c"
    using circle_swap23[OF assms] by simp
  moreover have "circle b a c = circle a b c"
    using circle_swap12[OF assms] by simp
  moreover have "circle b c a = circle a b c"
    using circle_swap23[OF assms(2,1,3)] circle_swap12[OF assms] by simp
  moreover have "circle c a b = circle a b c"
    using circle_swap12[OF assms(1,3,2)] circle_swap23[OF assms] by simp
  moreover have "circle c b a = circle a b c"
    using circle_swap23[OF assms(3,1,2)] circle_swap12[OF assms(1,3,2)] circle_swap23[OF assms] by simp
  ultimately show ?thesis
    using circle_sorted[OF assms] by simp
qed

lemma sqrt_25_4: "sqrt (25 / 4) = 5 / 2"
  by (rule real_sqrt_unique) (simp_all add: power2_eq_square)

theorem circle_permutation_invariant_witness:
  "finite_coordinate (coordinate 2 4) \<and> finite_coordinate (coordinate 0 0) \<and>
   finite_coordinate (coordinate 4 0) \<and>
   circle (coordinate 0 0) (coordinate 4 0) (coordinate 2 4) =
     circle (coordinate 2 4) (coordinate 0 0) (coordinate 4 0) \<and>
   array_sort circle_compare [coordinate 2 4, coordinate 0 0, coordinate 4 0] =
     [coordinate 0 0, coordinate 4 0, coordinate 2 4] \<and>
   circle (coordinate 2 4) (coordinate 0 0) (coordinate 4 0) =
     \<lparr>centre = coordinate 2 (3 / 2), radius = Num (5 / 2)\<rparr>"
proof -
  have fin: "finite_coordinate (coordinate 2 4)" "finite_coordinate (coordinate 0 0)"
    "finite_coordinate (coordinate 4 0)"
    by (simp_all add: finite_coordinate_def coordinate_def)
  have sorted: "array_sort circle_compare [coordinate 2 4, coordinate 0 0, coordinate 4 0] =
      [coordinate 0 0, coordinate 4 0, coordinate 2 4]"
    by (simp add: array_sort_def circle_compare_def coordinate_def js_gt_def js_sub_def)
  have val: "circle (coordinate 2 4) (coordinate 0 0) (coordinate 4 0) =
      \<lparr>centre = coordinate 2 (3 / 2), radius = Num (5 / 2)\<rparr>"
    unfolding circle_def sorted
    by (simp add: coordinate_def js_sub_def Let_def sqrt_25_4)
  from circle_permutation_invariant[OF fin] fin sorted val show ?thesis
    by simp
qed

text \<open>
  Five sites, three of them on the line \<open>y = 0\<close>, and the state of the diagram built from them
  after the first five events of the sweep.
\<close>

definition five_sites :: "Site list" where
  "five_sites = [site_at 0 1 (- 2), site_at 1 0 0, site_at 2 1 0, site_at 3 2 0, site_at 4 2 1]"

definition five_sites_sweep :: "error + VoronoiDiagram" where
  "five_sites_sweep =
     (case new_VoronoiDiagram five_sites of Inl e \<Rightarrow> Inl e | Inr d \<Rightarrow> computeSteps 5 d)"

section \<open>Degenerate circles\<close>

text \<open>
  Three arcs in a row whose sites \<open>(0,0)\<close>, \<open>(1,0)\<close> and \<open>(2,0)\<close> lie on a horizontal line,
  with the sweep line at \<open>y = 1\<close>.
\<close>

definition collinear_diagram :: VoronoiDiagram where
  "collinear_diagram =
     \<lparr>activeSites = [\<lparr>site = site_at 0 0 0, arcs = [0]\<rparr>, \<lparr>site = site_at 1 1 0, arcs = [1]\<rparr>,
                     \<lparr>site = site_at 2 2 0, arcs = [2]\<rparr>],
      edges = [], lineSweepPosition = Num 1, queue = new_PriorityQueue,
      arcHeap = [\<lparr>activeSite = 0, rightArc = Some 1, leftArc = None\<rparr>,
                 \<lparr>activeSite = 1, rightArc = Some 2, leftArc = Some 0\<rparr>,
                 \<lparr>activeSite = 2, rightArc = None, leftArc = Some 1\<rparr>]\<rparr>"

lemma circle_collinear:
  "circle (coordinate 0 0) (coordinate 1 0) (coordinate 2 0) =
     \<lparr>centre = \<lparr>px = Num (1 / 2), py = NegInfinity\<rparr>, radius = Infinity\<rparr>"
proof -
  have sorted: "array_sort circle_compare [coordinate 0 0, coordinate 1 0, coordinate 2 0] =
      [coordinate 0 0, coordinate 1 0, coordinate 2 0]"
    by (simp add: array_sort_def circle_compare_def coordinate_def js_gt_def js_sub_def)
  show ?thesis
    unfolding circle_def sorted
    by (simp add: coordinate_def js_sub_def Let_def)
qed

text \<open>
  The same triple in a run. For the sites \<open>(1,-2)\<close>, \<open>(0,0)\<close>, \<open>(1,0)\<close>, \<open>(2,0)\<close> and
  \<open>(2,1)\<close> the sweep starts from the arcs of \<open>(1,-2)\<close> and \<open>(0,0)\<close>, inserts \<open>(1,0)\<close> and
  \<open>(2,0)\<close>, and removes the two arcs of \<open>(1,-2)\<close> that lie between the three sites of the line
  \<open>y = 0\<close>. The site event of \<open>(2,1)\<close> then asks for the vertex event of the arc of \<open>(1,0)\<close>,
  whose neighbours are the arcs of \<open>(0,0)\<close> and \<open>(2,0)\<close>.
\<close>

lemmas sweep_defs = new_VoronoiDiagram_def insertFirstSites_def pushSiteEvents_def sortSites_def
  new_PriorityQueue_def sortSites_compare_def computeStep_def pop_def array_pop_def Let_def
  insertSite_def closest_step_def parabolaPointY_def js_sub_def js_gt_def containing_step_def
  arcSite_def array_last_def updateBeachLine_def updateBeachLine_links_def set_arcs_def
  set_leftArc_def set_rightArc_def set_leftArc_unless_null_def set_rightArc_unless_null_def
  removeArcTriples_def removeVertexEvents_def sortVertices_def sortVertices_compare_def
  array_sort_def updateVertexEventsForNewSite_def neighbourEvents_def getVertexEvent_def
  same_object_def circle_def circle_compare_def pushVertexEvents_def arcs_compare_def
  processVertexEvent_def addVertexToEdge_def distanceFromPlane_def getNormal_def updateEdge_def
  getEdge_def edge_matches_def site_at_def coordinate_def

lemma sqrt_bounds:
  "\<not> 1 < sqrt (5 / 4) - 1" "\<not> 1 / 2 + sqrt (1 / 2) < 1"
proof -
  have "sqrt (5 / 4) < 2" by (rule real_less_lsqrt) simp_all
  thus "\<not> 1 < sqrt (5 / 4) - 1" by simp
  have "1 / 2 < sqrt (1 / 2)" by (rule real_less_rsqrt) (simp add: power2_eq_square)
  thus "\<not> 1 / 2 + sqrt (1 / 2) < 1" by simp
qed

lemma five_sites_queue:
  "(case five_sites_sweep of Inl e \<Rightarrow> None | Inr d \<Rightarrow> Some (vertexEvents (queue d))) =
     Some [\<lparr>VertexEvent.arcs = [3, 10, 9],
             eventPoint = \<lparr>px = Num (3 / 2), py = Num (1 / 2 + sqrt (1 / 2))\<rparr>,
             vertexPoint = \<lparr>px = Num (3 / 2), py = Num (1 / 2)\<rparr>\<rparr>,
           \<lparr>VertexEvent.arcs = [0, 3, 10], eventPoint = \<lparr>px = Num (1 / 2), py = NaN\<rparr>,
             vertexPoint = \<lparr>px = Num (1 / 2), py = NegInfinity\<rparr>\<rparr>]"
  unfolding five_sites_sweep_def
  by (simp add: five_sites_def sweep_defs upt_rec sqrt_bounds eval_nat_numeral)

text \<open>
  C4 fails on the code. The centre of the circle through \<open>(0,0)\<close>, \<open>(1,0)\<close> and \<open>(2,0)\<close> is
  \<open>(0.5, -Infinity)\<close>, which is not finite, and \<open>getVertexEvent\<close> for the middle arc does not
  return \<open>null\<close>: it tests the centre against \<open>Infinity\<close> only, the event height
  \<open>-Infinity + Infinity\<close> is \<open>NaN\<close> and passes the test against the sweep line, and a vertex
  event with the vertex \<open>(0.5, -Infinity)\<close> is returned. In the sweep of the five sites
  \<open>(1,-2)\<close>, \<open>(0,0)\<close>, \<open>(1,0)\<close>, \<open>(2,0)\<close>, \<open>(2,1)\<close> that event is in the queue after the fifth
  event.
\<close>

theorem getVertexEvent_collinear_not_filtered:
  "circle (coords (site_at 0 0 0)) (coords (site_at 1 1 0)) (coords (site_at 2 2 0)) =
     \<lparr>centre = \<lparr>px = Num (1 / 2), py = NegInfinity\<rparr>, radius = Infinity\<rparr> \<and>
   getVertexEvent collinear_diagram 1 =
     Inr (Some \<lparr>VertexEvent.arcs = [0, 1, 2], eventPoint = \<lparr>px = Num (1 / 2), py = NaN\<rparr>,
                vertexPoint = \<lparr>px = Num (1 / 2), py = NegInfinity\<rparr>\<rparr>) \<and>
   (case five_sites_sweep of Inl e \<Rightarrow> None | Inr d \<Rightarrow> Some (vertexEvents (queue d))) =
     Some [\<lparr>VertexEvent.arcs = [3, 10, 9],
             eventPoint = \<lparr>px = Num (3 / 2), py = Num (1 / 2 + sqrt (1 / 2))\<rparr>,
             vertexPoint = \<lparr>px = Num (3 / 2), py = Num (1 / 2)\<rparr>\<rparr>,
           \<lparr>VertexEvent.arcs = [0, 3, 10], eventPoint = \<lparr>px = Num (1 / 2), py = NaN\<rparr>,
             vertexPoint = \<lparr>px = Num (1 / 2), py = NegInfinity\<rparr>\<rparr>]"
proof -
  have "getVertexEvent collinear_diagram 1 =
     Inr (Some \<lparr>VertexEvent.arcs = [0, 1, 2], eventPoint = \<lparr>px = Num (1 / 2), py = NaN\<rparr>,
                vertexPoint = \<lparr>px = Num (1 / 2), py = NegInfinity\<rparr>\<rparr>)"
    by (simp add: getVertexEvent_def collinear_diagram_def arcSite_def site_at_def same_object_def
          circle_collinear[unfolded coordinate_def] coordinate_def js_gt_def Let_def)
  moreover have "circle (coords (site_at 0 0 0)) (coords (site_at 1 1 0)) (coords (site_at 2 2 0)) =
     \<lparr>centre = \<lparr>px = Num (1 / 2), py = NegInfinity\<rparr>, radius = Infinity\<rparr>"
    by (simp add: site_at_def circle_collinear)
  ultimately show ?thesis
    using five_sites_queue by simp
qed

section \<open>The beachline\<close>

subsection \<open>Reading the arc store after an update\<close>

lemma set_leftArc_simps:
  "length (set_leftArc h a v) = length h"
  "leftArc (set_leftArc h a v ! b) = (if b = a \<and> a < length h then v else leftArc (h ! b))"
  "rightArc (set_leftArc h a v ! b) = rightArc (h ! b)"
  "activeSite (set_leftArc h a v ! b) = activeSite (h ! b)"
proof -
  show "length (set_leftArc h a v) = length h" by (simp add: set_leftArc_def)
  show "leftArc (set_leftArc h a v ! b) = (if b = a \<and> a < length h then v else leftArc (h ! b))"
    by (cases "b = a"; cases "length h \<le> a") (simp_all add: set_leftArc_def list_update_beyond)
  show "rightArc (set_leftArc h a v ! b) = rightArc (h ! b)"
    by (cases "b = a"; cases "length h \<le> a") (simp_all add: set_leftArc_def list_update_beyond)
  show "activeSite (set_leftArc h a v ! b) = activeSite (h ! b)"
    by (cases "b = a"; cases "length h \<le> a") (simp_all add: set_leftArc_def list_update_beyond)
qed

lemma set_rightArc_simps:
  "length (set_rightArc h a v) = length h"
  "rightArc (set_rightArc h a v ! b) = (if b = a \<and> a < length h then v else rightArc (h ! b))"
  "leftArc (set_rightArc h a v ! b) = leftArc (h ! b)"
  "activeSite (set_rightArc h a v ! b) = activeSite (h ! b)"
proof -
  show "length (set_rightArc h a v) = length h" by (simp add: set_rightArc_def)
  show "rightArc (set_rightArc h a v ! b) = (if b = a \<and> a < length h then v else rightArc (h ! b))"
    by (cases "b = a"; cases "length h \<le> a") (simp_all add: set_rightArc_def list_update_beyond)
  show "leftArc (set_rightArc h a v ! b) = leftArc (h ! b)"
    by (cases "b = a"; cases "length h \<le> a") (simp_all add: set_rightArc_def list_update_beyond)
  show "activeSite (set_rightArc h a v ! b) = activeSite (h ! b)"
    by (cases "b = a"; cases "length h \<le> a") (simp_all add: set_rightArc_def list_update_beyond)
qed

lemma set_arcs_simps:
  "length (set_arcs ss i v) = length ss"
  "ActiveSite.arcs (set_arcs ss i v ! j) = (if j = i \<and> i < length ss then v else ActiveSite.arcs (ss ! j))"
  "site (set_arcs ss i v ! j) = site (ss ! j)"
proof -
  show "length (set_arcs ss i v) = length ss" by (simp add: set_arcs_def)
  show "ActiveSite.arcs (set_arcs ss i v ! j) = (if j = i \<and> i < length ss then v else ActiveSite.arcs (ss ! j))"
    by (cases "j = i"; cases "length ss \<le> i") (simp_all add: set_arcs_def list_update_beyond)
  show "site (set_arcs ss i v ! j) = site (ss ! j)"
    by (cases "j = i"; cases "length ss \<le> i") (simp_all add: set_arcs_def list_update_beyond)
qed

lemma set_leftArc_unless_null_simps:
  "length (set_leftArc_unless_null h a v) = length h"
  "leftArc (set_leftArc_unless_null h a v ! b) = (if a = Some b \<and> b < length h then v else leftArc (h ! b))"
  "rightArc (set_leftArc_unless_null h a v ! b) = rightArc (h ! b)"
  "activeSite (set_leftArc_unless_null h a v ! b) = activeSite (h ! b)"
proof -
  show "length (set_leftArc_unless_null h a v) = length h"
    by (cases a) (simp_all add: set_leftArc_unless_null_def set_leftArc_simps)
  show "leftArc (set_leftArc_unless_null h a v ! b) = (if a = Some b \<and> b < length h then v else leftArc (h ! b))"
    by (cases a) (auto simp: set_leftArc_unless_null_def set_leftArc_simps)
  show "rightArc (set_leftArc_unless_null h a v ! b) = rightArc (h ! b)"
    by (cases a) (simp_all add: set_leftArc_unless_null_def set_leftArc_simps)
  show "activeSite (set_leftArc_unless_null h a v ! b) = activeSite (h ! b)"
    by (cases a) (simp_all add: set_leftArc_unless_null_def set_leftArc_simps)
qed

lemma set_rightArc_unless_null_simps:
  "length (set_rightArc_unless_null h a v) = length h"
  "rightArc (set_rightArc_unless_null h a v ! b) = (if a = Some b \<and> b < length h then v else rightArc (h ! b))"
  "leftArc (set_rightArc_unless_null h a v ! b) = leftArc (h ! b)"
  "activeSite (set_rightArc_unless_null h a v ! b) = activeSite (h ! b)"
proof -
  show "length (set_rightArc_unless_null h a v) = length h"
    by (cases a) (simp_all add: set_rightArc_unless_null_def set_rightArc_simps)
  show "rightArc (set_rightArc_unless_null h a v ! b) = (if a = Some b \<and> b < length h then v else rightArc (h ! b))"
    by (cases a) (auto simp: set_rightArc_unless_null_def set_rightArc_simps)
  show "leftArc (set_rightArc_unless_null h a v ! b) = leftArc (h ! b)"
    by (cases a) (simp_all add: set_rightArc_unless_null_def set_rightArc_simps)
  show "activeSite (set_rightArc_unless_null h a v ! b) = activeSite (h ! b)"
    by (cases a) (simp_all add: set_rightArc_unless_null_def set_rightArc_simps)
qed

lemmas heap_simps = set_leftArc_simps set_rightArc_simps set_leftArc_unless_null_simps
  set_rightArc_unless_null_simps set_arcs_simps

lemma updateBeachLine_links_frame:
  "queue (updateBeachLine_links d newArc I) = queue d"
  "lineSweepPosition (updateBeachLine_links d newArc I) = lineSweepPosition d"
  "length (activeSites (updateBeachLine_links d newArc I)) = length (activeSites d)"
  "length (arcHeap (updateBeachLine_links d newArc I)) = length (arcHeap d) + 2"
  "site (activeSites (updateBeachLine_links d newArc I) ! j) = site (activeSites d ! j)"
  by (simp_all add: updateBeachLine_links_def Let_def heap_simps)

lemma updateBeachLine_links_arcs:
  assumes "activeSite (arcHeap d ! I) < length (activeSites d)"
  shows "ActiveSite.arcs (activeSites (updateBeachLine_links d newArc I) ! j) =
     (if j = activeSite (arcHeap d ! I)
      then filter (\<lambda>element. element \<noteq> I) (ActiveSite.arcs (activeSites d ! j)) @
             [length (arcHeap d), length (arcHeap d) + 1]
      else ActiveSite.arcs (activeSites d ! j))"
  using assms
  by (simp add: updateBeachLine_links_def Let_def heap_simps)

lemma updateBeachLine_links_heap:
  assumes "newArc < length (arcHeap d)"
    and "\<forall>l. leftArc (arcHeap d ! I) = Some l \<longrightarrow> l < length (arcHeap d) \<and> l \<noteq> newArc"
    and "\<forall>r. rightArc (arcHeap d ! I) = Some r \<longrightarrow> r < length (arcHeap d) \<and> r \<noteq> newArc"
  shows "b < length (arcHeap d) \<Longrightarrow>
           activeSite (arcHeap (updateBeachLine_links d newArc I) ! b) = activeSite (arcHeap d ! b)"
    and "b < length (arcHeap d) \<Longrightarrow>
           leftArc (arcHeap (updateBeachLine_links d newArc I) ! b) =
             (if b = newArc then Some (length (arcHeap d))
              else if rightArc (arcHeap d ! I) = Some b then Some (length (arcHeap d) + 1)
              else leftArc (arcHeap d ! b))"
    and "b < length (arcHeap d) \<Longrightarrow>
           rightArc (arcHeap (updateBeachLine_links d newArc I) ! b) =
             (if b = newArc then Some (length (arcHeap d) + 1)
              else if leftArc (arcHeap d ! I) = Some b then Some (length (arcHeap d))
              else rightArc (arcHeap d ! b))"
    and "activeSite (arcHeap (updateBeachLine_links d newArc I) ! length (arcHeap d)) =
           activeSite (arcHeap d ! I)"
    and "leftArc (arcHeap (updateBeachLine_links d newArc I) ! length (arcHeap d)) =
           leftArc (arcHeap d ! I)"
    and "rightArc (arcHeap (updateBeachLine_links d newArc I) ! length (arcHeap d)) = Some newArc"
    and "activeSite (arcHeap (updateBeachLine_links d newArc I) ! Suc (length (arcHeap d))) =
           activeSite (arcHeap d ! I)"
    and "leftArc (arcHeap (updateBeachLine_links d newArc I) ! Suc (length (arcHeap d))) = Some newArc"
    and "rightArc (arcHeap (updateBeachLine_links d newArc I) ! Suc (length (arcHeap d))) =
           rightArc (arcHeap d ! I)"
  using assms
  by (auto simp: updateBeachLine_links_def Let_def heap_simps nth_append)

subsection \<open>Well-formed beachlines\<close>

text \<open>
  The arcs of the beachline are the arcs in the arc lists of the active sites; an arc that
  was split or that collapsed stays in the arc store but is in no list any more.
\<close>

definition beachline_arcs :: "VoronoiDiagram \<Rightarrow> nat list" where
  "beachline_arcs d = concat (map ActiveSite.arcs (activeSites d))"

definition link_symmetry :: "VoronoiDiagram \<Rightarrow> bool" where
  "link_symmetry d =
     (\<forall>a\<in>set (beachline_arcs d).
        (\<forall>r. rightArc (arcHeap d ! a) = Some r \<longrightarrow> leftArc (arcHeap d ! r) = Some a) \<and>
        (\<forall>l. leftArc (arcHeap d ! a) = Some l \<longrightarrow> rightArc (arcHeap d ! l) = Some a))"

definition arcs_owned :: "VoronoiDiagram \<Rightarrow> bool" where
  "arcs_owned d =
     (\<forall>i<length (activeSites d). \<forall>a\<in>set (ActiveSite.arcs (activeSites d ! i)).
        a < length (arcHeap d) \<and> activeSite (arcHeap d ! a) = i)"

definition links_closed :: "VoronoiDiagram \<Rightarrow> bool" where
  "links_closed d =
     (\<forall>a\<in>set (beachline_arcs d).
        (\<forall>r. rightArc (arcHeap d ! a) = Some r \<longrightarrow>
           r \<in> set (beachline_arcs d) \<and> r \<noteq> a \<and> leftArc (arcHeap d ! r) = Some a) \<and>
        (\<forall>l. leftArc (arcHeap d ! a) = Some l \<longrightarrow>
           l \<in> set (beachline_arcs d) \<and> l \<noteq> a \<and> rightArc (arcHeap d ! l) = Some a))"

definition event_ok :: "VoronoiDiagram \<Rightarrow> VertexEvent \<Rightarrow> bool" where
  "event_ok d e =
     (\<exists>l m r. VertexEvent.arcs e = [l, m, r] \<and> m \<in> set (beachline_arcs d) \<and>
        leftArc (arcHeap d ! m) = Some l \<and> rightArc (arcHeap d ! m) = Some r \<and> l \<noteq> r)"

definition beachline_ok :: "VoronoiDiagram \<Rightarrow> bool" where
  "beachline_ok d =
     (arcs_owned d \<and> links_closed d \<and> (\<forall>e\<in>set (vertexEvents (queue d)). event_ok d e))"

lemma in_beachline:
  "a \<in> set (beachline_arcs d) \<longleftrightarrow>
     (\<exists>i<length (activeSites d). a \<in> set (ActiveSite.arcs (activeSites d ! i)))"
proof -
  have "a \<in> set (beachline_arcs d) \<longleftrightarrow> (\<exists>x\<in>set (activeSites d). a \<in> set (ActiveSite.arcs x))"
    by (simp add: beachline_arcs_def)
  also have "\<dots> \<longleftrightarrow> (\<exists>i<length (activeSites d). a \<in> set (ActiveSite.arcs (activeSites d ! i)))"
    by (metis in_set_conv_nth)
  finally show ?thesis .
qed

text \<open>The diagram of \<open>insertSite\<close> when it calls \<open>updateBeachLine\<close>.\<close>

definition with_new_site :: "VoronoiDiagram \<Rightarrow> Site \<Rightarrow> VoronoiDiagram" where
  "with_new_site d s =
     d\<lparr>activeSites := activeSites d @ [\<lparr>site = s, arcs = [length (arcHeap d)]\<rparr>],
       arcHeap := arcHeap d @ [\<lparr>activeSite = length (activeSites d), rightArc = None, leftArc = None\<rparr>]\<rparr>"

lemma split_state:
  fixes s :: Site
  assumes owned: "arcs_owned d" and closed: "links_closed d"
    and c: "c < length (activeSites d)" and I: "I \<in> set (ActiveSite.arcs (activeSites d ! c))"
  defines "N \<equiv> length (arcHeap d)"
  defines "d3 \<equiv> updateBeachLine_links (with_new_site d s) N I"
  shows "length (activeSites d3) = Suc (length (activeSites d))"
    and "length (arcHeap d3) = Suc (Suc (Suc N))"
    and "queue d3 = queue d"
    and "j < length (activeSites d) \<Longrightarrow> site (activeSites d3 ! j) = site (activeSites d ! j)"
    and "j < length (activeSites d) \<Longrightarrow> set (ActiveSite.arcs (activeSites d3 ! j)) =
           (if j = c then (set (ActiveSite.arcs (activeSites d ! c)) - {I}) \<union> {Suc N, Suc (Suc N)}
            else set (ActiveSite.arcs (activeSites d ! j)))"
    and "ActiveSite.arcs (activeSites d3 ! length (activeSites d)) = [N]"
    and "b < N \<Longrightarrow> activeSite (arcHeap d3 ! b) = activeSite (arcHeap d ! b)"
    and "b < N \<Longrightarrow> leftArc (arcHeap d3 ! b) =
           (if rightArc (arcHeap d ! I) = Some b then Some (Suc (Suc N)) else leftArc (arcHeap d ! b))"
    and "b < N \<Longrightarrow> rightArc (arcHeap d3 ! b) =
           (if leftArc (arcHeap d ! I) = Some b then Some (Suc N) else rightArc (arcHeap d ! b))"
    and "activeSite (arcHeap d3 ! N) = length (activeSites d)"
    and "leftArc (arcHeap d3 ! N) = Some (Suc N)"
    and "rightArc (arcHeap d3 ! N) = Some (Suc (Suc N))"
    and "activeSite (arcHeap d3 ! (Suc N)) = c"
    and "leftArc (arcHeap d3 ! (Suc N)) = leftArc (arcHeap d ! I)"
    and "rightArc (arcHeap d3 ! (Suc N)) = Some N"
    and "activeSite (arcHeap d3 ! (Suc (Suc N))) = c"
    and "leftArc (arcHeap d3 ! (Suc (Suc N))) = Some N"
    and "rightArc (arcHeap d3 ! (Suc (Suc N))) = rightArc (arcHeap d ! I)"
proof -
  let ?d2 = "with_new_site d s"
  have IN: "I < N" and Ic: "activeSite (arcHeap d ! I) = c"
    using owned c I by (auto simp: arcs_owned_def N_def)
  have Ib: "I \<in> set (beachline_arcs d)"
    using c I by (auto simp: in_beachline)
  have h2: "length (arcHeap ?d2) = Suc N" "b < N \<Longrightarrow> arcHeap ?d2 ! b = arcHeap d ! b"
    "arcHeap ?d2 ! N = \<lparr>activeSite = length (activeSites d), rightArc = None, leftArc = None\<rparr>" for b
    by (simp_all add: with_new_site_def N_def nth_append)
  have s2: "length (activeSites ?d2) = Suc (length (activeSites d))"
    "j < length (activeSites d) \<Longrightarrow> activeSites ?d2 ! j = activeSites d ! j"
    "activeSites ?d2 ! length (activeSites d) = \<lparr>site = s, arcs = [N]\<rparr>" for j
    by (simp_all add: with_new_site_def N_def nth_append)
  have inb: "x \<in> set (beachline_arcs d) \<Longrightarrow> x < N" for x
    using owned by (auto simp: in_beachline arcs_owned_def N_def)
  have L: "l < N" if "leftArc (arcHeap d ! I) = Some l" for l
  proof -
    have "l \<in> set (beachline_arcs d)"
      using closed[unfolded links_closed_def] Ib that by blast
    then show ?thesis by (rule inb)
  qed
  have R: "r < N" if "rightArc (arcHeap d ! I) = Some r" for r
  proof -
    have "r \<in> set (beachline_arcs d)"
      using closed[unfolded links_closed_def] Ib that by blast
    then show ?thesis by (rule inb)
  qed
  have pre: "N < length (arcHeap ?d2)"
    "\<forall>l. leftArc (arcHeap ?d2 ! I) = Some l \<longrightarrow> l < length (arcHeap ?d2) \<and> l \<noteq> N"
    "\<forall>r. rightArc (arcHeap ?d2 ! I) = Some r \<longrightarrow> r < length (arcHeap ?d2) \<and> r \<noteq> N"
    using L R IN by (auto simp: h2)
  note heap = updateBeachLine_links_heap[OF pre]
  have own2: "activeSite (arcHeap ?d2 ! I) < length (activeSites ?d2)"
    using IN Ic c by (simp add: h2 s2)
  note arcs = updateBeachLine_links_arcs[OF own2]
  show "length (activeSites d3) = Suc (length (activeSites d))"
    by (simp add: d3_def updateBeachLine_links_frame s2)
  show "length (arcHeap d3) = Suc (Suc (Suc N))"
    by (simp add: d3_def updateBeachLine_links_frame h2)
  show "queue d3 = queue d"
    by (simp add: d3_def updateBeachLine_links_frame with_new_site_def)
  show "j < length (activeSites d) \<Longrightarrow> site (activeSites d3 ! j) = site (activeSites d ! j)"
    by (simp add: d3_def updateBeachLine_links_frame s2)
  show "j < length (activeSites d) \<Longrightarrow> set (ActiveSite.arcs (activeSites d3 ! j)) =
           (if j = c then (set (ActiveSite.arcs (activeSites d ! c)) - {I}) \<union> {Suc N, Suc (Suc N)}
            else set (ActiveSite.arcs (activeSites d ! j)))"
    using IN Ic by (auto simp: d3_def arcs h2 s2)
  show "ActiveSite.arcs (activeSites d3 ! length (activeSites d)) = [N]"
    using IN Ic c by (simp add: d3_def arcs h2 s2)
  show "b < N \<Longrightarrow> activeSite (arcHeap d3 ! b) = activeSite (arcHeap d ! b)"
    using heap(1)[of b] by (simp add: d3_def h2)
  show "b < N \<Longrightarrow> leftArc (arcHeap d3 ! b) =
           (if rightArc (arcHeap d ! I) = Some b then Some (Suc (Suc N)) else leftArc (arcHeap d ! b))"
    using heap(2)[of b] IN by (simp add: d3_def h2)
  show "b < N \<Longrightarrow> rightArc (arcHeap d3 ! b) =
           (if leftArc (arcHeap d ! I) = Some b then Some (Suc N) else rightArc (arcHeap d ! b))"
    using heap(3)[of b] IN by (simp add: d3_def h2)
  show "activeSite (arcHeap d3 ! N) = length (activeSites d)"
    using heap(1)[of N] by (simp add: d3_def h2)
  show "leftArc (arcHeap d3 ! N) = Some (Suc N)"
    using heap(2)[of N] by (simp add: d3_def h2)
  show "rightArc (arcHeap d3 ! N) = Some (Suc (Suc N))"
    using heap(3)[of N] by (simp add: d3_def h2)
  show "activeSite (arcHeap d3 ! (Suc N)) = c"
    using heap(4) IN Ic by (simp add: d3_def h2)
  show "leftArc (arcHeap d3 ! (Suc N)) = leftArc (arcHeap d ! I)"
    using heap(5) IN by (simp add: d3_def h2)
  show "rightArc (arcHeap d3 ! (Suc N)) = Some N"
    using heap(6) by (simp add: d3_def h2)
  show "activeSite (arcHeap d3 ! (Suc (Suc N))) = c"
    using heap(7) IN Ic by (simp add: d3_def h2)
  show "leftArc (arcHeap d3 ! (Suc (Suc N))) = Some N"
    using heap(8) by (simp add: d3_def h2)
  show "rightArc (arcHeap d3 ! (Suc (Suc N))) = rightArc (arcHeap d ! I)"
    using heap(9) IN by (simp add: d3_def h2)
qed

lemma links_closedD:
  assumes "links_closed d" and "a \<in> set (beachline_arcs d)"
  shows "rightArc (arcHeap d ! a) = Some r \<Longrightarrow>
           r \<in> set (beachline_arcs d) \<and> r \<noteq> a \<and> leftArc (arcHeap d ! r) = Some a"
    and "leftArc (arcHeap d ! a) = Some l \<Longrightarrow>
           l \<in> set (beachline_arcs d) \<and> l \<noteq> a \<and> rightArc (arcHeap d ! l) = Some a"
  using assms unfolding links_closed_def by blast+

lemma arcs_ownedD:
  assumes "arcs_owned d" and "i < length (activeSites d)" and "a \<in> set (ActiveSite.arcs (activeSites d ! i))"
  shows "a < length (arcHeap d)" and "activeSite (arcHeap d ! a) = i"
  using assms unfolding arcs_owned_def by blast+

lemma split_ok:
  fixes s :: Site
  assumes owned: "arcs_owned d" and closed: "links_closed d"
    and c: "c < length (activeSites d)" and I: "I \<in> set (ActiveSite.arcs (activeSites d ! c))"
  defines "N \<equiv> length (arcHeap d)"
  defines "d3 \<equiv> updateBeachLine_links (with_new_site d s) N I"
  shows "arcs_owned d3" and "links_closed d3"
    and "event_ok d e \<Longrightarrow> I \<notin> set (VertexEvent.arcs e) \<Longrightarrow> event_ok d3 e"
    and "N \<in> set (beachline_arcs d3)"
proof -
  note st = split_state[OF owned closed c I, where s = s, folded N_def, folded d3_def]
  let ?B = "set (beachline_arcs d)"
  let ?B3 = "set (beachline_arcs d3)"
  have Ib: "I \<in> ?B" using c I by (auto simp: in_beachline)
  have old: "x < N" if "x \<in> ?B" for x
    using that owned by (auto simp: in_beachline arcs_owned_def N_def)
  have only_c: "j = c" if "j < length (activeSites d)" "I \<in> set (ActiveSite.arcs (activeSites d ! j))" for j
    using arcs_ownedD(2)[OF owned that] arcs_ownedD(2)[OF owned c I] by simp
  have B3: "x \<in> ?B3 \<longleftrightarrow> (x \<in> ?B \<and> x \<noteq> I) \<or> x = N \<or> x = Suc N \<or> x = Suc (Suc N)" for x
  proof
    assume "x \<in> ?B3"
    then obtain j where j: "j < Suc (length (activeSites d))" "x \<in> set (ActiveSite.arcs (activeSites d3 ! j))"
      by (auto simp: in_beachline st(1))
    show "(x \<in> ?B \<and> x \<noteq> I) \<or> x = N \<or> x = Suc N \<or> x = Suc (Suc N)"
    proof (cases "j = length (activeSites d)")
      case True
      with j show ?thesis by (simp add: st(6))
    next
      case False
      with j have jl: "j < length (activeSites d)" by simp
      show ?thesis
      proof (cases "j = c")
        case True
        with j jl show ?thesis by (auto simp: st(5) in_beachline)
      next
        case False
        with j jl only_c[OF jl] show ?thesis by (auto simp: st(5) in_beachline)
      qed
    qed
  next
    assume x: "(x \<in> ?B \<and> x \<noteq> I) \<or> x = N \<or> x = Suc N \<or> x = Suc (Suc N)"
    have "\<exists>j<Suc (length (activeSites d)). x \<in> set (ActiveSite.arcs (activeSites d3 ! j))"
    proof -
      consider (o) "x \<in> ?B" "x \<noteq> I" | (n) "x = N" | (nl) "x = Suc N \<or> x = Suc (Suc N)"
        using x by blast
      then show ?thesis
      proof cases
        case o
        then obtain j where j: "j < length (activeSites d)" "x \<in> set (ActiveSite.arcs (activeSites d ! j))"
          by (auto simp: in_beachline)
        with o have "x \<in> set (ActiveSite.arcs (activeSites d3 ! j))"
          by (auto simp: st(5))
        with j show ?thesis using less_Suc_eq by blast
      next
        case n
        then have "x \<in> set (ActiveSite.arcs (activeSites d3 ! length (activeSites d)))"
          by (simp add: st(6))
        then show ?thesis by blast
      next
        case nl
        then have "x \<in> set (ActiveSite.arcs (activeSites d3 ! c))"
          using c by (auto simp: st(5))
        with c show ?thesis using less_Suc_eq by blast
      qed
    qed
    then show "x \<in> ?B3" by (simp add: in_beachline st(1))
  qed
  show "N \<in> ?B3" by (simp add: B3)
  show "arcs_owned d3"
    unfolding arcs_owned_def
  proof (intro allI impI ballI)
    fix j a
    assume j: "j < length (activeSites d3)" and a: "a \<in> set (ActiveSite.arcs (activeSites d3 ! j))"
    show "a < length (arcHeap d3) \<and> activeSite (arcHeap d3 ! a) = j"
    proof (cases "j = length (activeSites d)")
      case True
      with a show ?thesis by (simp add: st(6) st(2) st(10))
    next
      case False
      with j have jl: "j < length (activeSites d)" by (simp add: st(1))
      show ?thesis
      proof (cases "a < N")
        case True
        with a jl have "a \<in> set (ActiveSite.arcs (activeSites d ! j))"
          by (auto simp: st(5) split: if_splits)
        with arcs_ownedD(2)[OF owned jl] True show ?thesis
          by (simp add: st(2) st(7))
      next
        case False
        with a jl old have "j = c \<and> (a = Suc N \<or> a = Suc (Suc N))"
          by (auto simp: st(5) in_beachline split: if_splits)
        then show ?thesis
          by (auto simp: st(2) st(13) st(16))
      qed
    qed
  qed
  show "links_closed d3"
    unfolding links_closed_def
  proof (intro ballI)
    fix a
    assume a: "a \<in> ?B3"
    then consider (o) "a \<in> ?B" "a \<noteq> I" | (n) "a = N" | (nl) "a = Suc N" | (nr) "a = Suc (Suc N)"
      using B3 by blast
    note cases_a = this
    have right: "r \<in> ?B3 \<and> r \<noteq> a \<and> leftArc (arcHeap d3 ! r) = Some a"
      if r: "rightArc (arcHeap d3 ! a) = Some r" for r
      using cases_a
    proof cases
      case o
      note aN = old[OF o(1)]
      show ?thesis
      proof (cases "leftArc (arcHeap d ! I) = Some a")
        case True
        with r aN have "r = Suc N" by (simp add: st(9))
        with True aN show ?thesis by (simp add: B3 st(14))
      next
        case False
        with r aN have ra: "rightArc (arcHeap d ! a) = Some r" by (simp add: st(9))
        note cl = links_closedD(1)[OF closed o(1) ra]
        have rI: "r \<noteq> I" using cl False by auto
        have "rightArc (arcHeap d ! I) \<noteq> Some r"
          using links_closedD(1)[OF closed Ib, of r] cl o(2) by auto
        with cl rI old[of r] show ?thesis by (simp add: B3 st(8))
      qed
    next
      case n
      with r have "r = Suc (Suc N)" by (simp add: st(12))
      with n show ?thesis by (simp add: B3 st(17))
    next
      case nl
      with r have "r = N" by (simp add: st(15))
      with nl show ?thesis by (simp add: B3 st(11))
    next
      case nr
      with r have rI: "rightArc (arcHeap d ! I) = Some r" by (simp add: st(18))
      note cl = links_closedD(1)[OF closed Ib rI]
      with rI nr old[of r] show ?thesis by (simp add: B3 st(8))
    qed
    have left: "l \<in> ?B3 \<and> l \<noteq> a \<and> rightArc (arcHeap d3 ! l) = Some a"
      if l: "leftArc (arcHeap d3 ! a) = Some l" for l
      using cases_a
    proof cases
      case o
      note aN = old[OF o(1)]
      show ?thesis
      proof (cases "rightArc (arcHeap d ! I) = Some a")
        case True
        with l aN have "l = Suc (Suc N)" by (simp add: st(8))
        with True aN show ?thesis by (simp add: B3 st(18))
      next
        case False
        with l aN have la: "leftArc (arcHeap d ! a) = Some l" by (simp add: st(8))
        note cl = links_closedD(2)[OF closed o(1) la]
        have lI: "l \<noteq> I" using cl False by auto
        have "leftArc (arcHeap d ! I) \<noteq> Some l"
          using links_closedD(2)[OF closed Ib, of l] cl o(2) by auto
        with cl lI old[of l] show ?thesis by (simp add: B3 st(9))
      qed
    next
      case n
      with l have "l = Suc N" by (simp add: st(11))
      with n show ?thesis by (simp add: B3 st(15))
    next
      case nr
      with l have "l = N" by (simp add: st(17))
      with nr show ?thesis by (simp add: B3 st(12))
    next
      case nl
      with l have lI: "leftArc (arcHeap d ! I) = Some l" by (simp add: st(14))
      note cl = links_closedD(2)[OF closed Ib lI]
      with lI nl old[of l] show ?thesis by (simp add: B3 st(9))
    qed
    from right left
    show "(\<forall>r. rightArc (arcHeap d3 ! a) = Some r \<longrightarrow>
             r \<in> ?B3 \<and> r \<noteq> a \<and> leftArc (arcHeap d3 ! r) = Some a) \<and>
          (\<forall>l. leftArc (arcHeap d3 ! a) = Some l \<longrightarrow>
             l \<in> ?B3 \<and> l \<noteq> a \<and> rightArc (arcHeap d3 ! l) = Some a)"
      by blast
  qed
  show "event_ok d3 e" if e: "event_ok d e" and nI: "I \<notin> set (VertexEvent.arcs e)"
  proof -
    from e obtain l m r where lmr: "VertexEvent.arcs e = [l, m, r]" "m \<in> ?B"
      "leftArc (arcHeap d ! m) = Some l" "rightArc (arcHeap d ! m) = Some r" "l \<noteq> r"
      unfolding event_ok_def by blast
    have ne: "l \<noteq> I" "m \<noteq> I" "r \<noteq> I" using nI lmr(1) by auto
    have "rightArc (arcHeap d ! I) \<noteq> Some m"
      using links_closedD(1)[OF closed Ib, of m] lmr(3) ne by auto
    moreover have "leftArc (arcHeap d ! I) \<noteq> Some m"
      using links_closedD(2)[OF closed Ib, of m] lmr(4) ne by auto
    ultimately have "leftArc (arcHeap d3 ! m) = Some l" "rightArc (arcHeap d3 ! m) = Some r"
      using old[OF lmr(2)] lmr by (simp_all add: st(8) st(9))
    moreover have "m \<in> ?B3" using lmr(2) ne by (simp add: B3)
    ultimately show ?thesis using lmr unfolding event_ok_def by blast
  qed
qed

subsection \<open>Vertex events of the queue\<close>

lemma beachline_cong:
  assumes "arcHeap d' = arcHeap d" and "length (activeSites d') = length (activeSites d)"
    and "\<forall>j<length (activeSites d).
           set (ActiveSite.arcs (activeSites d' ! j)) = set (ActiveSite.arcs (activeSites d ! j))"
  shows "set (beachline_arcs d') = set (beachline_arcs d)"
    and "arcs_owned d' = arcs_owned d"
    and "links_closed d' = links_closed d"
    and "event_ok d' e = event_ok d e"
proof -
  show B: "set (beachline_arcs d') = set (beachline_arcs d)"
    using assms(2,3) by (simp add: in_beachline set_eq_iff) blast
  show "arcs_owned d' = arcs_owned d"
    using assms by (simp add: arcs_owned_def)
  show "links_closed d' = links_closed d"
    by (simp add: links_closed_def B assms(1))
  show "event_ok d' e = event_ok d e"
    by (simp add: event_ok_def B assms(1))
qed

lemma removeArcTriples_frame:
  "activeSites (removeArcTriples d a) = activeSites d"
  "arcHeap (removeArcTriples d a) = arcHeap d"
  "edges (removeArcTriples d a) = edges d"
  "lineSweepPosition (removeArcTriples d a) = lineSweepPosition d"
  "set (vertexEvents (queue (removeArcTriples d a))) =
     {e \<in> set (vertexEvents (queue d)).
        \<not> (VertexEvent.arcs e ! 0 = a \<or> VertexEvent.arcs e ! 1 = a \<or> VertexEvent.arcs e ! 2 = a)}"
  by (auto simp: removeArcTriples_def removeVertexEvents_def sortVertices_def set_array_sort Let_def)

lemma removeArcTriples_ok:
  "arcs_owned (removeArcTriples d a) = arcs_owned d"
  "links_closed (removeArcTriples d a) = links_closed d"
  "event_ok (removeArcTriples d a) e = event_ok d e"
  "set (beachline_arcs (removeArcTriples d a)) = set (beachline_arcs d)"
proof -
  have h: "arcHeap (removeArcTriples d a) = arcHeap d"
    and n: "length (activeSites (removeArcTriples d a)) = length (activeSites d)"
    and s: "\<forall>j<length (activeSites d).
           set (ActiveSite.arcs (activeSites (removeArcTriples d a) ! j)) =
           set (ActiveSite.arcs (activeSites d ! j))"
    by (simp_all add: removeArcTriples_frame)
  note cong = beachline_cong[OF h n s]
  show "arcs_owned (removeArcTriples d a) = arcs_owned d" by (rule cong)
  show "links_closed (removeArcTriples d a) = links_closed d" by (rule cong)
  show "event_ok (removeArcTriples d a) e = event_ok d e" by (rule cong)
  show "set (beachline_arcs (removeArcTriples d a)) = set (beachline_arcs d)" by (rule cong)
qed

lemma getVertexEvent_ok:
  assumes "getVertexEvent d arc = Inr (Some e)" and "arc \<in> set (beachline_arcs d)"
  shows "event_ok d e"
proof -
  obtain la ra where l: "leftArc (arcHeap d ! arc) = Some la" and r: "rightArc (arcHeap d ! arc) = Some ra"
    using assms(1) by (auto simp: getVertexEvent_def split: option.splits)
  have "\<not> same_object (arcSite d la) (arcSite d ra)" and "VertexEvent.arcs e = [la, arc, ra]"
    using assms(1) l r by (auto simp: getVertexEvent_def Let_def split: if_splits)
  moreover from this have "la \<noteq> ra"
    by (auto simp: same_object_def)
  ultimately show ?thesis
    using l r assms(2) by (simp add: event_ok_def)
qed

lemma neighbourEvents_ok:
  assumes "neighbourEvents next d a = Inr es" and "a \<in> set (beachline_arcs d)"
    and "links_closed d" and "next = leftArc \<or> next = rightArc"
    and "Some e \<in> set es"
  shows "event_ok d e"
proof -
  have nb: "aa \<in> set (beachline_arcs d)" if "next (arcHeap d ! a) = Some aa" for aa
    using links_closedD[OF assms(3,2)] assms(4) that by blast
  show ?thesis
  proof (cases "next (arcHeap d ! a)")
    case None
    with assms(1,5) show ?thesis by (simp add: neighbourEvents_def)
  next
    case (Some aa)
    with assms(1) obtain e1 where e1: "getVertexEvent d a = Inr e1"
      by (auto simp: neighbourEvents_def split: sum.splits)
    show ?thesis
    proof (cases "next (arcHeap d ! aa)")
      case None
      with Some e1 assms(1,5) have "e1 = Some e" by (auto simp: neighbourEvents_def)
      with e1 assms(2) show ?thesis by (auto intro: getVertexEvent_ok)
    next
      case Some2: (Some aaa)
      with Some e1 assms(1) obtain e2 where e2: "getVertexEvent d aa = Inr e2" and es: "es = [e1, e2]"
        by (auto simp: neighbourEvents_def split: sum.splits)
      with assms(5) consider "e1 = Some e" | "e2 = Some e" by auto
      then show ?thesis
      proof cases
        case 1
        with e1 assms(2) show ?thesis by (auto intro: getVertexEvent_ok)
      next
        case 2
        with e2 nb[OF Some] show ?thesis by (auto intro: getVertexEvent_ok)
      qed
    qed
  qed
qed

lemma updateVertexEventsForNewSite_ok:
  assumes "updateVertexEventsForNewSite d arc = Inr d'" and "arc \<in> set (beachline_arcs d)"
    and "links_closed d"
  shows "activeSites d' = activeSites d" and "arcHeap d' = arcHeap d"
    and "e \<in> set (vertexEvents (queue d')) \<Longrightarrow> e \<in> set (vertexEvents (queue d)) \<or> event_ok d e"
proof -
  obtain la ra ls rs where la: "leftArc (arcHeap d ! arc) = Some la"
    and ra: "rightArc (arcHeap d ! arc) = Some ra"
    and ls: "neighbourEvents leftArc d la = Inr ls" and rs: "neighbourEvents rightArc d ra = Inr rs"
    and d': "d' = d\<lparr>queue := pushVertexEvents (queue d)
                   (map the (filter (\<lambda>element. element \<noteq> None) (ls @ rs)))\<rparr>"
    using assms(1) by (auto simp: updateVertexEventsForNewSite_def split: option.splits sum.splits)
  show "activeSites d' = activeSites d" "arcHeap d' = arcHeap d"
    by (simp_all add: d')
  have lab: "la \<in> set (beachline_arcs d)" and rab: "ra \<in> set (beachline_arcs d)"
    using links_closedD[OF assms(3,2)] la ra by blast+
  show "e \<in> set (vertexEvents (queue d)) \<or> event_ok d e" if "e \<in> set (vertexEvents (queue d'))"
  proof -
    from that consider "e \<in> set (vertexEvents (queue d))" | "Some e \<in> set ls" | "Some e \<in> set rs"
      by (auto simp: d' pushVertexEvents_def sortVertices_def set_array_sort)
    then show ?thesis
    proof cases
      case 1
      then show ?thesis by simp
    next
      case 2
      from neighbourEvents_ok[OF ls lab assms(3) _ 2] show ?thesis by simp
    next
      case 3
      from neighbourEvents_ok[OF rs rab assms(3) _ 3] show ?thesis by simp
    qed
  qed
qed

subsection \<open>A vertex event\<close>

lemma processVertexEvent_state:
  assumes "processVertexEvent d e = Inr d'" and "VertexEvent.arcs e = [l, m, r]"
  shows "activeSites d' = set_arcs (activeSites d) (activeSite (arcHeap d ! m))
           (filter (\<lambda>arc. arc \<noteq> m) (ActiveSite.arcs (activeSites d ! activeSite (arcHeap d ! m))))"
    and "arcHeap d' = set_leftArc (set_rightArc (arcHeap d) l (Some r)) r (Some l)"
    and "set (vertexEvents (queue d')) =
           {x \<in> set (vertexEvents (queue d)).
              \<not> (VertexEvent.arcs x ! 0 = m \<or> VertexEvent.arcs x ! 1 = m \<or> VertexEvent.arcs x ! 2 = m)}"
  using assms
  by (auto simp: processVertexEvent_def Let_def removeArcTriples_frame split: sum.splits)

lemma vertex_ok:
  assumes owned: "arcs_owned d" and closed: "links_closed d"
    and ev: "event_ok d e" and run: "processVertexEvent d e = Inr d'"
    and evs: "\<forall>x\<in>set (vertexEvents (queue d)). event_ok d x"
  shows "arcs_owned d'" and "links_closed d'"
    and "\<forall>x\<in>set (vertexEvents (queue d')). event_ok d' x"
proof -
  from ev obtain l m r where lmr: "VertexEvent.arcs e = [l, m, r]" "m \<in> set (beachline_arcs d)"
    "leftArc (arcHeap d ! m) = Some l" "rightArc (arcHeap d ! m) = Some r" "l \<noteq> r"
    unfolding event_ok_def by blast
  let ?B = "set (beachline_arcs d)"
  let ?B' = "set (beachline_arcs d')"
  define c where "c = activeSite (arcHeap d ! m)"
  note st = processVertexEvent_state[OF run lmr(1), folded c_def]
  obtain j where j: "j < length (activeSites d)" "m \<in> set (ActiveSite.arcs (activeSites d ! j))"
    using lmr(2) by (auto simp: in_beachline)
  have c: "c < length (activeSites d)" and mc: "m \<in> set (ActiveSite.arcs (activeSites d ! c))"
    using arcs_ownedD(2)[OF owned j] j by (simp_all add: c_def)
  have only_c: "i = c" if "i < length (activeSites d)" "m \<in> set (ActiveSite.arcs (activeSites d ! i))" for i
    using arcs_ownedD(2)[OF owned that] by (simp add: c_def)
  have old: "x < length (arcHeap d)" if "x \<in> ?B" for x
    using that owned by (auto simp: in_beachline arcs_owned_def)
  note ml = links_closedD(2)[OF closed lmr(2) lmr(3)]
  note mr = links_closedD(1)[OF closed lmr(2) lmr(4)]
  have len: "length (activeSites d') = length (activeSites d)" "length (arcHeap d') = length (arcHeap d)"
    by (simp_all add: st heap_simps)
  have arcs': "ActiveSite.arcs (activeSites d' ! i) =
      (if i = c then filter (\<lambda>arc. arc \<noteq> m) (ActiveSite.arcs (activeSites d ! c))
       else ActiveSite.arcs (activeSites d ! i))" for i
    using c by (simp add: st heap_simps)
  have own': "activeSite (arcHeap d' ! x) = activeSite (arcHeap d ! x)" for x
    by (simp add: st heap_simps)
  have R': "rightArc (arcHeap d' ! x) = (if x = l then Some r else rightArc (arcHeap d ! x))" for x
    using old[of l] ml by (simp add: st heap_simps)
  have L': "leftArc (arcHeap d' ! x) = (if x = r then Some l else leftArc (arcHeap d ! x))" for x
    using old[of r] mr by (simp add: st heap_simps)
  have B': "x \<in> ?B' \<longleftrightarrow> x \<in> ?B \<and> x \<noteq> m" for x
  proof
    assume "x \<in> ?B'"
    then obtain i where "i < length (activeSites d)" "x \<in> set (ActiveSite.arcs (activeSites d' ! i))"
      by (auto simp: in_beachline len)
    then show "x \<in> ?B \<and> x \<noteq> m"
      using only_c[of i] by (auto simp: arcs' in_beachline split: if_splits)
  next
    assume x: "x \<in> ?B \<and> x \<noteq> m"
    then obtain i where i: "i < length (activeSites d)" "x \<in> set (ActiveSite.arcs (activeSites d ! i))"
      by (auto simp: in_beachline)
    with x have "x \<in> set (ActiveSite.arcs (activeSites d' ! i))"
      by (auto simp: arcs')
    with i show "x \<in> ?B'" by (auto simp: in_beachline len)
  qed
  show "arcs_owned d'"
    unfolding arcs_owned_def
  proof (intro allI impI ballI)
    fix i a
    assume i: "i < length (activeSites d')" and a: "a \<in> set (ActiveSite.arcs (activeSites d' ! i))"
    then have "i < length (activeSites d)" "a \<in> set (ActiveSite.arcs (activeSites d ! i))"
      by (auto simp: len arcs' split: if_splits)
    from arcs_ownedD[OF owned this] show "a < length (arcHeap d') \<and> activeSite (arcHeap d' ! a) = i"
      by (simp add: len own')
  qed
  show closed': "links_closed d'"
    unfolding links_closed_def
  proof (intro ballI)
    fix a
    assume "a \<in> ?B'"
    then have a: "a \<in> ?B" "a \<noteq> m" by (simp_all add: B')
    have right: "x \<in> ?B' \<and> x \<noteq> a \<and> leftArc (arcHeap d' ! x) = Some a"
      if x: "rightArc (arcHeap d' ! a) = Some x" for x
    proof (cases "a = l")
      case True
      with x have "x = r" by (simp add: R')
      with True mr lmr(5) show ?thesis by (simp add: B' L')
    next
      case False
      with x have ra: "rightArc (arcHeap d ! a) = Some x" by (simp add: R')
      note cl = links_closedD(1)[OF closed a(1) ra]
      have "x \<noteq> m" using cl lmr(3) False by auto
      moreover have "x \<noteq> r" using cl mr a(2) by auto
      ultimately show ?thesis using cl by (simp add: B' L')
    qed
    have left: "x \<in> ?B' \<and> x \<noteq> a \<and> rightArc (arcHeap d' ! x) = Some a"
      if x: "leftArc (arcHeap d' ! a) = Some x" for x
    proof (cases "a = r")
      case True
      with x have "x = l" by (simp add: L')
      with True ml lmr(5) show ?thesis by (simp add: B' R')
    next
      case False
      with x have la: "leftArc (arcHeap d ! a) = Some x" by (simp add: L')
      note cl = links_closedD(2)[OF closed a(1) la]
      have "x \<noteq> m" using cl lmr(4) False by auto
      moreover have "x \<noteq> l" using cl ml a(2) by auto
      ultimately show ?thesis using cl by (simp add: B' R')
    qed
    from right left
    show "(\<forall>r. rightArc (arcHeap d' ! a) = Some r \<longrightarrow>
             r \<in> ?B' \<and> r \<noteq> a \<and> leftArc (arcHeap d' ! r) = Some a) \<and>
          (\<forall>l. leftArc (arcHeap d' ! a) = Some l \<longrightarrow>
             l \<in> ?B' \<and> l \<noteq> a \<and> rightArc (arcHeap d' ! l) = Some a)"
      by blast
  qed
  show "\<forall>x\<in>set (vertexEvents (queue d')). event_ok d' x"
  proof
    fix x
    assume "x \<in> set (vertexEvents (queue d'))"
    then have xq: "x \<in> set (vertexEvents (queue d))"
      and nm: "\<not> (VertexEvent.arcs x ! 0 = m \<or> VertexEvent.arcs x ! 1 = m \<or> VertexEvent.arcs x ! 2 = m)"
      by (simp_all add: st(3))
    from evs xq have okx: "event_ok d x" by blast
    then obtain l2 m2 r2 where x: "VertexEvent.arcs x = [l2, m2, r2]" "m2 \<in> ?B"
      "leftArc (arcHeap d ! m2) = Some l2" "rightArc (arcHeap d ! m2) = Some r2" "l2 \<noteq> r2"
      unfolding event_ok_def by blast
    have ne: "l2 \<noteq> m" "m2 \<noteq> m" "r2 \<noteq> m" using nm x(1) by auto
    have "m2 \<noteq> r" using mr x(3) ne by auto
    moreover have "m2 \<noteq> l" using ml x(4) ne by auto
    ultimately have "leftArc (arcHeap d' ! m2) = Some l2" "rightArc (arcHeap d' ! m2) = Some r2"
      using x by (simp_all add: L' R')
    moreover have "m2 \<in> ?B'" using x(2) ne by (simp add: B')
    ultimately show "event_ok d' x" using x unfolding event_ok_def by blast
  qed
qed

subsection \<open>A site event\<close>

lemma closest_step_index:
  "snd (foldl (closest_step d s) acc xs) = Some i \<Longrightarrow> snd acc = Some i \<or> i \<in> set xs"
proof (induction xs arbitrary: acc)
  case Nil
  then show ?case by simp
next
  case (Cons x xs)
  from Cons.IH[of "closest_step d s acc x"] Cons.prems
  show ?case by (auto simp: closest_step_def Let_def split: if_splits)
qed

lemma containing_step_mem:
  "foldl (containing_step d s) acc xs = Inr (Some a) \<Longrightarrow> acc = Inr (Some a) \<or> a \<in> set xs"
proof (induction xs arbitrary: acc)
  case Nil
  then show ?case by simp
next
  case (Cons x xs)
  from Cons.IH[of "containing_step d s acc x"] Cons.prems
  show ?case by (auto simp: containing_step_def split: sum.splits option.splits if_splits)
qed

lemma insertSite_decomp:
  assumes "insertSite d s = Inr d'"
  shows "\<exists>c I d5. c < length (activeSites d) \<and> I \<in> set (ActiveSite.arcs (activeSites d ! c)) \<and>
           updateBeachLine (with_new_site d s) (length (arcHeap d)) I = Inr d5 \<and>
           d' = d5\<lparr>activeSites := set_arcs (activeSites d5) c
                  (array_sort (arcs_compare d5) (ActiveSite.arcs (activeSites d5 ! c)))\<rparr>"
proof -
  obtain c where cl: "snd (foldl (closest_step d s) (NegInfinity, None) [0..<length (activeSites d)]) = Some c"
    using assms by (auto simp: insertSite_def split: option.splits)
  from closest_step_index[OF cl] have c: "c < length (activeSites d)" by simp
  let ?as = "ActiveSite.arcs (activeSites d ! c)"
  obtain I where sel: "(if length ?as = 1 then Inr (Some (?as ! 0))
                 else (case foldl (containing_step d s) (Inr None) (butlast ?as) of
                         Inl e \<Rightarrow> Inl e
                       | Inr None \<Rightarrow> Inr (array_last ?as)
                       | Inr (Some containingArc) \<Rightarrow> Inr (Some containingArc))) = Inr (Some I)"
    using assms cl by (auto simp: insertSite_def split: option.splits sum.splits)
  have I: "I \<in> set ?as"
  proof (cases "length ?as = 1")
    case True
    with sel have "I = ?as ! 0" by simp
    with True show ?thesis by (metis nth_mem zero_less_one)
  next
    case False
    show ?thesis
    proof (cases "foldl (containing_step d s) (Inr None) (butlast ?as)")
      case (Inl e)
      with sel False show ?thesis by simp
    next
      case (Inr found)
      show ?thesis
      proof (cases found)
        case None
        with Inr sel False have "array_last ?as = Some I" by simp
        then show ?thesis by (auto simp: array_last_def split: if_splits)
      next
        case (Some a)
        with Inr sel False have "a = I" by simp
        with containing_step_mem[of d s "Inr None" "butlast ?as" I] Inr Some
        show ?thesis by (auto dest: in_set_butlastD)
      qed
    qed
  qed
  obtain d5 where d5: "updateBeachLine (with_new_site d s) (length (arcHeap d)) I = Inr d5"
    and d': "d' = d5\<lparr>activeSites := set_arcs (activeSites d5) c
                  (array_sort (arcs_compare d5) (ActiveSite.arcs (activeSites d5 ! c)))\<rparr>"
    using assms cl sel
    by (simp add: insertSite_def Let_def with_new_site_def split: sum.splits)
  with c I show ?thesis by blast
qed

lemma insertSite_ok:
  assumes ok: "beachline_ok d" and run: "insertSite d s = Inr d'"
  shows "beachline_ok d'"
proof -
  from ok have owned: "arcs_owned d" and closed: "links_closed d"
    and evs: "\<forall>e\<in>set (vertexEvents (queue d)). event_ok d e"
    by (simp_all add: beachline_ok_def)
  from insertSite_decomp[OF run] obtain c I d5 where c: "c < length (activeSites d)"
    and I: "I \<in> set (ActiveSite.arcs (activeSites d ! c))"
    and d5: "updateBeachLine (with_new_site d s) (length (arcHeap d)) I = Inr d5"
    and d': "d' = d5\<lparr>activeSites := set_arcs (activeSites d5) c
                  (array_sort (arcs_compare d5) (ActiveSite.arcs (activeSites d5 ! c)))\<rparr>"
    by blast
  define N where "N = length (arcHeap d)"
  define d3 where "d3 = updateBeachLine_links (with_new_site d s) N I"
  define d4 where "d4 = removeArcTriples d3 I"
  note sp = split_ok[OF owned closed c I, where s = s, folded N_def, folded d3_def]
  have q3: "queue d3 = queue d"
    by (simp add: d3_def updateBeachLine_links_frame with_new_site_def)
  have owned4: "arcs_owned d4" and closed4: "links_closed d4" and N4: "N \<in> set (beachline_arcs d4)"
    using sp by (simp_all add: d4_def removeArcTriples_ok)
  have evs4: "event_ok d4 e" if "e \<in> set (vertexEvents (queue d4))" for e
  proof -
    from that have e: "e \<in> set (vertexEvents (queue d))"
      and nI: "\<not> (VertexEvent.arcs e ! 0 = I \<or> VertexEvent.arcs e ! 1 = I \<or> VertexEvent.arcs e ! 2 = I)"
      by (simp_all add: d4_def removeArcTriples_frame q3)
    from evs e have oke: "event_ok d e" by blast
    then obtain l m r where "VertexEvent.arcs e = [l, m, r]"
      unfolding event_ok_def by blast
    with nI have "I \<notin> set (VertexEvent.arcs e)"
      by auto
    with oke sp(3)[of e] show ?thesis
      by (simp add: d4_def removeArcTriples_ok)
  qed
  from d5 have run5: "updateVertexEventsForNewSite d4 N = Inr d5"
    by (simp add: updateBeachLine_def d4_def d3_def N_def)
  note u = updateVertexEventsForNewSite_ok[OF run5 N4 closed4]
  have same5: "arcHeap d5 = arcHeap d4" "length (activeSites d5) = length (activeSites d4)"
    "\<forall>j<length (activeSites d4).
       set (ActiveSite.arcs (activeSites d5 ! j)) = set (ActiveSite.arcs (activeSites d4 ! j))"
    by (simp_all add: u)
  note cong5 = beachline_cong[OF same5]
  have evs5: "event_ok d5 e" if "e \<in> set (vertexEvents (queue d5))" for e
    using u(3)[OF that] evs4 by (auto simp: cong5)
  have same': "arcHeap d' = arcHeap d5" "length (activeSites d') = length (activeSites d5)"
    "\<forall>j<length (activeSites d5).
       set (ActiveSite.arcs (activeSites d' ! j)) = set (ActiveSite.arcs (activeSites d5 ! j))"
    by (simp_all add: d' heap_simps set_array_sort)
  note cong' = beachline_cong[OF same']
  have "queue d' = queue d5" by (simp add: d')
  with evs5 owned4 closed4 show ?thesis
    by (simp add: beachline_ok_def cong' cong5)
qed

lemma pop_events:
  "set (vertexEvents (snd (pop q))) \<subseteq> set (vertexEvents q)"
  "vertexEvent (fst (pop q)) = Some e \<Longrightarrow> e \<in> set (vertexEvents q)"
  by (auto simp: pop_def array_pop_def Let_def dest: in_set_butlastD split: if_splits)

lemma computeStep_ok:
  assumes ok: "beachline_ok d" and run: "computeStep d = Inr d'"
  shows "beachline_ok d'"
proof -
  from ok have owned: "arcs_owned d" and closed: "links_closed d"
    and evs: "\<forall>e\<in>set (vertexEvents (queue d)). event_ok d e"
    by (simp_all add: beachline_ok_def)
  define d1 where "d1 y = d\<lparr>queue := snd (pop (queue d)), lineSweepPosition := y\<rparr>" for y
  have same: "arcHeap (d1 y) = arcHeap d" "length (activeSites (d1 y)) = length (activeSites d)"
    "\<forall>j<length (activeSites d).
       set (ActiveSite.arcs (activeSites (d1 y) ! j)) = set (ActiveSite.arcs (activeSites d ! j))" for y
    by (simp_all add: d1_def)
  note cong = beachline_cong[OF same]
  have q1: "queue (d1 y) = snd (pop (queue d))" for y
    by (simp add: d1_def)
  have ok1: "beachline_ok (d1 y)" for y
    unfolding beachline_ok_def cong q1
    using owned closed evs pop_events(1)[of "queue d"] by blast
  show ?thesis
  proof (cases "isSiteEvent (fst (pop (queue d)))")
    case True
    then obtain e :: SiteEvent where "insertSite (d\<lparr>queue := snd (pop (queue d)),
          lineSweepPosition := py (coords (point e))\<rparr>) (point e) = Inr d'"
      using run by (auto simp: computeStep_def Let_def split: option.splits)
    then have "insertSite (d1 (py (coords (point e)))) (point e) = Inr d'"
      by (simp add: d1_def)
    with ok1 show ?thesis by (rule insertSite_ok)
  next
    case False
    then obtain e where e: "vertexEvent (fst (pop (queue d))) = Some e"
      and "processVertexEvent (d\<lparr>queue := snd (pop (queue d)),
          lineSweepPosition := py (eventPoint e)\<rparr>) e = Inr d'"
      using run by (auto simp: computeStep_def Let_def split: option.splits)
    then have r: "processVertexEvent (d1 (py (eventPoint e))) e = Inr d'"
      by (simp add: d1_def)
    from pop_events(2)[OF e] evs have "event_ok d e" by blast
    then have eok: "event_ok (d1 (py (eventPoint e))) e" by (simp add: cong)
    from ok1[of "py (eventPoint e)"] have o1: "arcs_owned (d1 (py (eventPoint e)))"
      and c1: "links_closed (d1 (py (eventPoint e)))"
      and e1: "\<forall>x\<in>set (vertexEvents (queue (d1 (py (eventPoint e))))). event_ok (d1 (py (eventPoint e))) x"
      by (simp_all add: beachline_ok_def)
    from vertex_ok[OF o1 c1 eok r e1] show ?thesis
      by (simp add: beachline_ok_def)
  qed
qed

lemma bootstrap_ok:
  assumes "new_VoronoiDiagram sites = Inr d"
  shows "beachline_ok d"
proof -
  obtain first second q where d: "d = \<lparr>activeSites = [\<lparr>site = first, arcs = [1, 2]\<rparr>, \<lparr>site = second, arcs = [0]\<rparr>],
        edges = [\<lparr>leftFace = first, rightFace = second, firstVertex = None, lastVertex = None\<rparr>],
        lineSweepPosition = Num 0, queue = q,
        arcHeap = [\<lparr>activeSite = 1, rightArc = Some 2, leftArc = Some 1\<rparr>,
                   \<lparr>activeSite = 0, rightArc = Some 0, leftArc = None\<rparr>,
                   \<lparr>activeSite = 0, rightArc = None, leftArc = Some 0\<rparr>]\<rparr>"
    and q: "vertexEvents q = []"
    using assms
    by (auto simp: new_VoronoiDiagram_def insertFirstSites_def Let_def pushSiteEvents_def sortSites_def
          new_PriorityQueue_def pop_def array_pop_def split: option.splits)
  have B: "set (beachline_arcs d) = {0, 1, 2}"
    by (auto simp: d beachline_arcs_def)
  show ?thesis
    unfolding beachline_ok_def arcs_owned_def links_closed_def B
    by (auto simp: d q less_Suc_eq nth_Cons')
qed

lemma beachline_ok_symmetry:
  assumes "beachline_ok d"
  shows "link_symmetry d"
  using assms unfolding beachline_ok_def links_closed_def link_symmetry_def by blast

subsection \<open>Link symmetry\<close>

lemma completeUnboundEdges_ok:
  "beachline_ok (completeUnboundEdges d) = beachline_ok d"
proof -
  have same: "arcHeap (completeUnboundEdges d) = arcHeap d"
    "length (activeSites (completeUnboundEdges d)) = length (activeSites d)"
    "\<forall>j<length (activeSites d).
       set (ActiveSite.arcs (activeSites (completeUnboundEdges d) ! j)) =
       set (ActiveSite.arcs (activeSites d ! j))"
    by (simp_all add: completeUnboundEdges_def)
  have q: "queue (completeUnboundEdges d) = queue d"
    by (simp add: completeUnboundEdges_def)
  show ?thesis
    unfolding beachline_ok_def beachline_cong[OF same] q ..
qed

lemma compute_loop_ok:
  "beachline_ok d \<Longrightarrow> compute_loop d = Inr d' \<Longrightarrow> beachline_ok d'"
proof (induction d rule: compute_loop.induct)
  case (1 d)
  show ?case
  proof (cases "isEmpty (queue d)")
    case True
    with "1.prems" show ?thesis by (simp add: compute_loop_empty)
  next
    case False
    with "1.prems"(2) obtain d1 where step: "computeStep d = Inr d1" and rest: "compute_loop d1 = Inr d'"
      by (subst (asm) compute_loop.simps) (auto split: sum.splits)
    from computeStep_ok[OF "1.prems"(1) step] have "beachline_ok d1" .
    with "1.IH"[OF False step] rest show ?thesis by simp
  qed
qed

lemma compute_ok:
  assumes "beachline_ok d" and "compute d = Inr d'"
  shows "beachline_ok d'"
proof -
  from assms(2) obtain d1 where l: "compute_loop d = Inr d1" and d': "d' = completeUnboundEdges d1"
    by (auto simp: compute_def split: sum.splits)
  from compute_loop_ok[OF assms(1) l] show ?thesis
    by (simp add: d' completeUnboundEdges_ok)
qed

text \<open>
  C8. The arcs of the beachline are the arcs in the arc lists of the active sites.
  \<open>beachline_ok\<close> is link symmetry together with what makes it inductive: every arc is in
  the list of its own site only, the neighbours of a beachline arc are beachline arcs other
  than the arc itself, and every queued vertex event names a beachline arc with its two
  current neighbours, which differ. The bootstrap establishes \<open>beachline_ok\<close>; every site
  event (\<open>insertSite\<close>), every vertex event for a queued triple (\<open>processVertexEvent\<close>) and
  so every \<open>computeStep\<close> and the whole of \<open>compute\<close> preserve it when they return
  normally; and \<open>beachline_ok\<close> gives link symmetry: for every beachline arc \<open>A\<close> with
  \<open>A.rightArc\<close> present, \<open>A.rightArc.leftArc\<close> is \<open>A\<close>, and the same with left and right
  exchanged.
\<close>

theorem link_symmetry_invariant:
  "(new_VoronoiDiagram sites = Inr d0 \<longrightarrow> beachline_ok d0) \<and>
   (beachline_ok d \<and> insertSite d s = Inr d1 \<longrightarrow> beachline_ok d1) \<and>
   (beachline_ok d \<and> event_ok d e \<and> processVertexEvent d e = Inr d2 \<longrightarrow> beachline_ok d2) \<and>
   (beachline_ok d \<and> computeStep d = Inr d3 \<longrightarrow> beachline_ok d3) \<and>
   (beachline_ok d \<and> compute d = Inr d4 \<longrightarrow> beachline_ok d4) \<and>
   (beachline_ok d \<longrightarrow> link_symmetry d)"
proof -
  have vertex: "beachline_ok d2"
    if "beachline_ok d" and "event_ok d e" and "processVertexEvent d e = Inr d2"
    using vertex_ok[OF _ _ that(2,3)] that(1) by (simp add: beachline_ok_def)
  from bootstrap_ok[of sites d0] insertSite_ok[of d s d1] vertex computeStep_ok[of d d3]
    compute_ok[of d d4] beachline_ok_symmetry[of d]
  show ?thesis by blast
qed

subsection \<open>The sites \<open>(0,0)\<close>, \<open>(4,0)\<close> and \<open>(2,4)\<close>\<close>

text \<open>
  The run on three sites: the bootstrap with \<open>(0,0)\<close> and \<open>(4,0)\<close>, the site event of
  \<open>(2,4)\<close>, which splits the left arc of \<open>(0,0)\<close> and queues the circle through the three
  sites, the vertex event at the circumcentre \<open>(2, 1.5)\<close>, and the finalization.
\<close>

definition three_sites :: "Site list" where
  "three_sites = [site_at 0 0 0, site_at 1 4 0, site_at 2 2 4]"

definition three_sites_start :: VoronoiDiagram where
  "three_sites_start =
     \<lparr>activeSites = [\<lparr>site = site_at 0 0 0, arcs = [1, 2]\<rparr>, \<lparr>site = site_at 1 4 0, arcs = [0]\<rparr>],
      edges = [\<lparr>leftFace = site_at 0 0 0, rightFace = site_at 1 4 0, firstVertex = None, lastVertex = None\<rparr>],
      lineSweepPosition = Num 0,
      queue = \<lparr>siteEvents = [\<lparr>point = site_at 2 2 4\<rparr>], vertexEvents = []\<rparr>,
      arcHeap = [\<lparr>activeSite = 1, rightArc = Some 2, leftArc = Some 1\<rparr>,
                 \<lparr>activeSite = 0, rightArc = Some 0, leftArc = None\<rparr>,
                 \<lparr>activeSite = 0, rightArc = None, leftArc = Some 0\<rparr>]\<rparr>"

lemma boot3: "new_VoronoiDiagram three_sites = Inr three_sites_start"
  by (simp add: three_sites_def three_sites_start_def new_VoronoiDiagram_def insertFirstSites_def
        pushSiteEvents_def sortSites_def
        new_PriorityQueue_def array_sort_def pop_def array_pop_def Let_def sortSites_compare_def
        site_at_def coordinate_def js_gt_def js_sub_def)

lemmas run_defs = computeStep_def pop_def array_pop_def Let_def insertSite_def closest_step_def
  parabolaPointY_def js_sub_def js_gt_def containing_step_def arcSite_def array_last_def
  updateBeachLine_def updateBeachLine_links_def set_arcs_def set_leftArc_def set_rightArc_def
  set_leftArc_unless_null_def set_rightArc_unless_null_def removeArcTriples_def removeVertexEvents_def
  sortVertices_def sortVertices_compare_def array_sort_def updateVertexEventsForNewSite_def
  neighbourEvents_def getVertexEvent_def same_object_def circle_def circle_compare_def
  pushVertexEvents_def arcs_compare_def site_at_def coordinate_def

definition three_sites_split :: VoronoiDiagram where
  "three_sites_split =
     \<lparr>activeSites = [\<lparr>site = site_at 0 0 0, arcs = [4, 5, 2]\<rparr>, \<lparr>site = site_at 1 4 0, arcs = [0]\<rparr>,
                     \<lparr>site = site_at 2 2 4, arcs = [3]\<rparr>],
      edges = [\<lparr>leftFace = site_at 0 0 0, rightFace = site_at 1 4 0, firstVertex = None, lastVertex = None\<rparr>,
               \<lparr>leftFace = site_at 2 2 4, rightFace = site_at 0 0 0, firstVertex = None, lastVertex = None\<rparr>],
      lineSweepPosition = Num 4,
      queue = \<lparr>siteEvents = [],
                vertexEvents = [\<lparr>VertexEvent.arcs = [3, 5, 0], eventPoint = coordinate 2 4,
                                 vertexPoint = coordinate 2 (3 / 2)\<rparr>]\<rparr>,
      arcHeap = [\<lparr>activeSite = 1, rightArc = Some 2, leftArc = Some 5\<rparr>,
                 \<lparr>activeSite = 0, rightArc = Some 0, leftArc = None\<rparr>,
                 \<lparr>activeSite = 0, rightArc = None, leftArc = Some 0\<rparr>,
                 \<lparr>activeSite = 2, rightArc = Some 5, leftArc = Some 4\<rparr>,
                 \<lparr>activeSite = 0, rightArc = Some 3, leftArc = None\<rparr>,
                 \<lparr>activeSite = 0, rightArc = Some 0, leftArc = Some 3\<rparr>]\<rparr>"

lemma step1: "computeStep three_sites_start = Inr three_sites_split"
  by (simp add: three_sites_start_def three_sites_split_def run_defs sqrt_25_4 upt_rec eval_nat_numeral)

lemmas vertex_defs = computeStep_def pop_def array_pop_def Let_def processVertexEvent_def
  js_sub_def js_gt_def arcSite_def set_arcs_def set_leftArc_def set_rightArc_def
  removeArcTriples_def removeVertexEvents_def sortVertices_def array_sort_def
  addVertexToEdge_def distanceFromPlane_def getNormal_def updateEdge_def getEdge_def edge_matches_def
  same_object_def site_at_def coordinate_def

definition three_sites_joined :: VoronoiDiagram where
  "three_sites_joined =
     \<lparr>activeSites = [\<lparr>site = site_at 0 0 0, arcs = [4, 2]\<rparr>, \<lparr>site = site_at 1 4 0, arcs = [0]\<rparr>,
                     \<lparr>site = site_at 2 2 4, arcs = [3]\<rparr>],
      edges = [\<lparr>leftFace = site_at 0 0 0, rightFace = site_at 1 4 0,
                firstVertex = None, lastVertex = Some (coordinate 2 (3 / 2))\<rparr>,
               \<lparr>leftFace = site_at 2 2 4, rightFace = site_at 0 0 0,
                firstVertex = None, lastVertex = Some (coordinate 2 (3 / 2))\<rparr>,
               \<lparr>leftFace = site_at 2 2 4, rightFace = site_at 1 4 0,
                firstVertex = Some (coordinate 2 (3 / 2)), lastVertex = None\<rparr>],
      lineSweepPosition = Num 4,
      queue = \<lparr>siteEvents = [], vertexEvents = []\<rparr>,
      arcHeap = [\<lparr>activeSite = 1, rightArc = Some 2, leftArc = Some 3\<rparr>,
                 \<lparr>activeSite = 0, rightArc = Some 0, leftArc = None\<rparr>,
                 \<lparr>activeSite = 0, rightArc = None, leftArc = Some 0\<rparr>,
                 \<lparr>activeSite = 2, rightArc = Some 0, leftArc = Some 4\<rparr>,
                 \<lparr>activeSite = 0, rightArc = Some 3, leftArc = None\<rparr>,
                 \<lparr>activeSite = 0, rightArc = Some 0, leftArc = Some 3\<rparr>]\<rparr>"

lemma step2: "computeStep three_sites_split = Inr three_sites_joined"
  by (simp add: three_sites_split_def three_sites_joined_def vertex_defs)

definition three_sites_final :: VoronoiDiagram where
  "three_sites_final =
     three_sites_joined\<lparr>edges :=
       [\<lparr>leftFace = site_at 0 0 0, rightFace = site_at 1 4 0,
         firstVertex = Some (coordinate (- 100) (- (102 / 2 ^ 52))), lastVertex = Some (coordinate 2 (3 / 2))\<rparr>,
        \<lparr>leftFace = site_at 2 2 4, rightFace = site_at 0 0 0,
         firstVertex = Some (coordinate (- 100) (105 / 2)), lastVertex = Some (coordinate 2 (3 / 2))\<rparr>,
        \<lparr>leftFace = site_at 2 2 4, rightFace = site_at 1 4 0,
         firstVertex = Some (coordinate 2 (3 / 2)), lastVertex = Some (coordinate 100 (101 / 2))\<rparr>]\<rparr>"

lemma three_sites_insertSite:
  "insertSite (three_sites_start\<lparr>queue := \<lparr>siteEvents = [], vertexEvents = []\<rparr>,
                                lineSweepPosition := Num 4\<rparr>) (site_at 2 2 4) = Inr three_sites_split"
  by (simp add: three_sites_start_def three_sites_split_def run_defs sqrt_25_4 upt_rec eval_nat_numeral)

lemma three_sites_processVertexEvent:
  "processVertexEvent (three_sites_split\<lparr>queue := \<lparr>siteEvents = [], vertexEvents = []\<rparr>\<rparr>)
     \<lparr>VertexEvent.arcs = [3, 5, 0], eventPoint = coordinate 2 4, vertexPoint = coordinate 2 (3 / 2)\<rparr> =
     Inr three_sites_joined"
  by (simp add: three_sites_split_def three_sites_joined_def vertex_defs)

lemma three_sites_finalized: "completeUnboundEdges three_sites_joined = three_sites_final"
  by (simp add: three_sites_joined_def three_sites_final_def completeUnboundEdges_def completeEdge_def
        Let_def bisectorY_def Number_EPSILON_def js_sub_def js_gt_def site_at_def coordinate_def)

lemma three_sites_compute: "compute three_sites_start = Inr three_sites_final"
proof -
  have "compute_loop three_sites_joined = Inr three_sites_joined"
    by (rule compute_loop_empty) (simp add: three_sites_joined_def isEmpty_def)
  then have "compute_loop three_sites_split = Inr three_sites_joined"
    by (subst compute_loop.simps) (simp add: step2, simp add: three_sites_split_def isEmpty_def)
  then have "compute_loop three_sites_start = Inr three_sites_joined"
    by (subst compute_loop.simps) (simp add: step1, simp add: three_sites_start_def isEmpty_def)
  then show ?thesis
    by (simp add: compute_def three_sites_finalized)
qed

lemma three_sites_popped_ok:
  "beachline_ok (three_sites_start\<lparr>queue := \<lparr>siteEvents = [], vertexEvents = []\<rparr>,
                                   lineSweepPosition := Num 4\<rparr>)"
  "beachline_ok (three_sites_split\<lparr>queue := \<lparr>siteEvents = [], vertexEvents = []\<rparr>\<rparr>)"
  "event_ok (three_sites_split\<lparr>queue := \<lparr>siteEvents = [], vertexEvents = []\<rparr>\<rparr>)
     \<lparr>VertexEvent.arcs = [3, 5, 0], eventPoint = coordinate 2 4, vertexPoint = coordinate 2 (3 / 2)\<rparr>"
  by (auto simp: beachline_ok_def arcs_owned_def links_closed_def event_ok_def beachline_arcs_def
        three_sites_start_def three_sites_split_def less_Suc_eq nth_Cons')

theorem link_symmetry_invariant_witness:
  "new_VoronoiDiagram three_sites = Inr three_sites_start \<and> beachline_ok three_sites_start \<and>
   insertSite (three_sites_start\<lparr>queue := \<lparr>siteEvents = [], vertexEvents = []\<rparr>,
                                lineSweepPosition := Num 4\<rparr>) (site_at 2 2 4) = Inr three_sites_split \<and>
   computeStep three_sites_start = Inr three_sites_split \<and> beachline_ok three_sites_split \<and>
   event_ok (three_sites_split\<lparr>queue := \<lparr>siteEvents = [], vertexEvents = []\<rparr>\<rparr>)
     \<lparr>VertexEvent.arcs = [3, 5, 0], eventPoint = coordinate 2 4, vertexPoint = coordinate 2 (3 / 2)\<rparr> \<and>
   processVertexEvent (three_sites_split\<lparr>queue := \<lparr>siteEvents = [], vertexEvents = []\<rparr>\<rparr>)
     \<lparr>VertexEvent.arcs = [3, 5, 0], eventPoint = coordinate 2 4, vertexPoint = coordinate 2 (3 / 2)\<rparr> =
     Inr three_sites_joined \<and>
   computeStep three_sites_split = Inr three_sites_joined \<and> beachline_ok three_sites_joined \<and>
   compute three_sites_start = Inr three_sites_final \<and> beachline_ok three_sites_final \<and>
   link_symmetry three_sites_final"
proof -
  let ?start = "three_sites_start\<lparr>queue := \<lparr>siteEvents = [], vertexEvents = []\<rparr>,
                                  lineSweepPosition := Num 4\<rparr>"
  let ?split = "three_sites_split\<lparr>queue := \<lparr>siteEvents = [], vertexEvents = []\<rparr>\<rparr>"
  let ?e = "\<lparr>VertexEvent.arcs = [3, 5, 0], eventPoint = coordinate 2 4, vertexPoint = coordinate 2 (3 / 2)\<rparr>"
  note site = link_symmetry_invariant[where sites = three_sites and ?d0.0 = three_sites_start
      and d = ?start and s = "site_at 2 2 4" and ?d1.0 = three_sites_split and e = ?e
      and ?d2.0 = three_sites_joined and ?d3.0 = three_sites_split and ?d4.0 = three_sites_final]
  note vertex = link_symmetry_invariant[where sites = three_sites and ?d0.0 = three_sites_start
      and d = ?split and s = "site_at 2 2 4" and ?d1.0 = three_sites_split and e = ?e
      and ?d2.0 = three_sites_joined and ?d3.0 = three_sites_joined and ?d4.0 = three_sites_final]
  note run = link_symmetry_invariant[where sites = three_sites and ?d0.0 = three_sites_start
      and d = three_sites_start and s = "site_at 2 2 4" and ?d1.0 = three_sites_split and e = ?e
      and ?d2.0 = three_sites_joined and ?d3.0 = three_sites_split and ?d4.0 = three_sites_final]
  note last = link_symmetry_invariant[where sites = three_sites and ?d0.0 = three_sites_start
      and d = three_sites_final and s = "site_at 2 2 4" and ?d1.0 = three_sites_split and e = ?e
      and ?d2.0 = three_sites_joined and ?d3.0 = three_sites_split and ?d4.0 = three_sites_final]
  have b0: "beachline_ok three_sites_start"
    using site boot3 by blast
  have b1: "beachline_ok three_sites_split"
    using site three_sites_popped_ok(1) three_sites_insertSite by blast
  have b2: "beachline_ok three_sites_joined"
    using vertex three_sites_popped_ok(2,3) three_sites_processVertexEvent by blast
  have b3: "beachline_ok three_sites_final"
    using run b0 three_sites_compute by blast
  have "link_symmetry three_sites_final"
    using last b3 by blast
  with b0 b1 b2 b3 boot3 step1 step2 three_sites_insertSite three_sites_processVertexEvent
    three_sites_compute three_sites_popped_ok(3)
  show ?thesis by blast
qed

end
